theory Spec2Isabelle
  imports Complex_Main "HOL-Library.AList" "HOL-Library.Multiset"
begin

section \<open>Monitor entities read by the host matrix (package zabbix, type declarations)\<close>

text \<open>Of \<open>zabbix.Host\<close> the host matrix reads the id and the names; the interface, group
  and template lists of the struct are not part of the embedding.\<close>

record zabbix_Host =
  HostID :: string
  Host :: string
  Name :: string
  Status :: string

record zabbix_Item =
  ItemID :: string
  HostID :: string
  Name :: string
  Key :: string
  Value :: string
  ValueType :: string
  State :: string

record HostData =
  Host :: zabbix_Host
  OSName :: string
  OSVersion :: string
  Packages :: "string list"

section \<open>Data model of the scanner (package scanner, type declarations)\<close>

text \<open>
  The \<open>float64\<close> CVSS scores that the code receives are finite and are embedded as
  \<open>real\<close>: the comparisons of the source are the order of the reals on them. Go strings
  are byte strings and are embedded as \<open>string\<close>; Go's \<open>int\<close> counters only count list
  elements and are embedded as \<open>nat\<close>.
  A Go \<open>map[string]*T\<close> is embedded as an association list with distinct keys, read
  with \<open>map_of\<close> and written with \<open>AList.update\<close>.
\<close>

type_synonym float64 = real

record PackageVuln =
  Name :: string
  Version :: string
  Arch :: string
  Score :: float64
  Fix :: string
  Bulletins :: "string list"
  CVEs :: "string list"

record BulletinSummary =
  ID :: string
  Type :: string
  Score :: float64
  CVEs :: "string list"
  Fix :: string
  AffectedPkg :: "string list"
  AffectedHosts :: "string list"

record HostEntry =
  HostID :: string
  Host :: string
  Name :: string
  OSName :: string
  OSVersion :: string
  Score :: float64
  CumulativeFix :: string
  Packages :: "PackageVuln list"
  Bulletins :: "BulletinSummary list"

record PackageEntry =
  Name :: string
  Version :: string
  Arch :: string
  Score :: float64
  Fix :: string
  AffectedHosts :: "string list"
  AffectedHostNames :: "string list"
  Bulletins :: "string list"

record BulletinEntry =
  ID :: string
  Type :: string
  Score :: float64
  CVEs :: "string list"
  Fix :: string
  AffectedPkgs :: "string list"
  AffectedHosts :: "string list"
  AffectedHostNames :: "string list"

record Aggregator =
  hosts :: "HostEntry list"
  packages :: "(string \<times> PackageEntry) list"
  bulletins :: "(string \<times> BulletinEntry) list"

section \<open>The aggregator (aggregator.go)\<close>

definition NewAggregator :: Aggregator where
  "NewAggregator = \<lparr>hosts = [], packages = [], bulletins = []\<rparr>"

definition Reset :: "Aggregator \<Rightarrow> Aggregator" where
  "Reset a = a\<lparr>hosts := [], packages := [], bulletins := []\<rparr>"

text \<open>\<open>appendUnique\<close>: the loop returns the slice unchanged at the first equal element
  and appends the value when the loop ends without a match.\<close>

fun appendUnique :: "string list \<Rightarrow> string \<Rightarrow> string list" where
  "appendUnique [] val = [val]"
| "appendUnique (v # slice) val =
     (if v = val then v # slice else v # appendUnique slice val)"

text \<open>\<open>appendUniqueSlice\<close>: the map \<open>existing\<close> is a membership function; the first loop
  marks the elements of \<open>dst\<close>, the second appends each unseen element of \<open>src\<close>.\<close>

fun appendUniqueSlice_loop ::
  "string list \<Rightarrow> (string \<Rightarrow> bool) \<Rightarrow> string list \<Rightarrow> string list" where
  "appendUniqueSlice_loop dst existing [] = dst"
| "appendUniqueSlice_loop dst existing (v # src) =
     (if \<not> existing v
      then appendUniqueSlice_loop (dst @ [v]) (existing(v := True)) src
      else appendUniqueSlice_loop dst existing src)"

definition appendUniqueSlice :: "string list \<Rightarrow> string list \<Rightarrow> string list" where
  "appendUniqueSlice dst src =
     appendUniqueSlice_loop dst (foldl (\<lambda>existing v. existing(v := True)) (\<lambda>_. False) dst) src"

definition pkg_key :: "PackageVuln \<Rightarrow> string" where
  "pkg_key pkg = PackageVuln.Name pkg @ ''|'' @ PackageVuln.Version pkg @ ''|'' @ PackageVuln.Arch pkg"

text \<open>One iteration of the package loop of \<open>AddHost\<close>.\<close>

definition addPackage ::
  "HostEntry \<Rightarrow> (string \<times> PackageEntry) list \<Rightarrow> PackageVuln \<Rightarrow> (string \<times> PackageEntry) list" where
  "addPackage entry m pkg =
     (let key = pkg_key pkg;
          e0 = (case map_of m key of
                  None \<Rightarrow> \<lparr>PackageEntry.Name = PackageVuln.Name pkg,
                            Version = PackageVuln.Version pkg,
                            Arch = PackageVuln.Arch pkg,
                            Score = PackageVuln.Score pkg,
                            Fix = PackageVuln.Fix pkg,
                            AffectedHosts = [], AffectedHostNames = [], Bulletins = []\<rparr>
                | Some e \<Rightarrow> e);
          e1 = e0\<lparr>PackageEntry.AffectedHosts :=
                    appendUnique (PackageEntry.AffectedHosts e0) (HostID entry)\<rparr>;
          e2 = e1\<lparr>PackageEntry.AffectedHostNames :=
                    appendUnique (PackageEntry.AffectedHostNames e1) (HostEntry.Name entry)\<rparr>;
          e3 = e2\<lparr>PackageEntry.Bulletins :=
                    appendUniqueSlice (PackageEntry.Bulletins e2) (PackageVuln.Bulletins pkg)\<rparr>;
          e4 = (if PackageVuln.Score pkg > PackageEntry.Score e3
                then e3\<lparr>PackageEntry.Score := PackageVuln.Score pkg\<rparr> else e3)
      in AList.update key e4 m)"

text \<open>One iteration of the bulletin loop of \<open>AddHost\<close>.\<close>

definition addBulletin ::
  "HostEntry \<Rightarrow> (string \<times> BulletinEntry) list \<Rightarrow> BulletinSummary \<Rightarrow> (string \<times> BulletinEntry) list" where
  "addBulletin entry m bulletin =
     (let key = BulletinSummary.ID bulletin;
          e0 = (case map_of m key of
                  None \<Rightarrow> \<lparr>BulletinEntry.ID = BulletinSummary.ID bulletin,
                            Type = BulletinSummary.Type bulletin,
                            Score = BulletinSummary.Score bulletin,
                            CVEs = BulletinSummary.CVEs bulletin,
                            Fix = BulletinSummary.Fix bulletin,
                            AffectedPkgs = [], AffectedHosts = [], AffectedHostNames = []\<rparr>
                | Some e \<Rightarrow> e);
          e1 = e0\<lparr>BulletinEntry.AffectedHosts :=
                    appendUnique (BulletinEntry.AffectedHosts e0) (HostID entry)\<rparr>;
          e2 = e1\<lparr>BulletinEntry.AffectedHostNames :=
                    appendUnique (BulletinEntry.AffectedHostNames e1) (HostEntry.Name entry)\<rparr>;
          e3 = e2\<lparr>BulletinEntry.AffectedPkgs :=
                    appendUniqueSlice (BulletinEntry.AffectedPkgs e2) (BulletinSummary.AffectedPkg bulletin)\<rparr>;
          e4 = (if BulletinSummary.Score bulletin > BulletinEntry.Score e3
                then e3\<lparr>BulletinEntry.Score := BulletinSummary.Score bulletin\<rparr> else e3)
      in AList.update key e4 m)"

definition AddHost :: "Aggregator \<Rightarrow> HostEntry \<Rightarrow> Aggregator" where
  "AddHost a entry =
     a\<lparr>hosts := hosts a @ [entry],
       packages := foldl (addPackage entry) (packages a) (HostEntry.Packages entry),
       bulletins := foldl (addBulletin entry) (bulletins a) (HostEntry.Bulletins entry)\<rparr>"

text \<open>A sequence of \<open>AddHost\<close> calls, in order.\<close>

definition AddHosts :: "Aggregator \<Rightarrow> HostEntry list \<Rightarrow> Aggregator" where
  "AddHosts a entries = foldl AddHost a entries"

text \<open>The scores of the findings that contribute to a package key, respectively to a
  bulletin id, in the order in which \<open>AddHost\<close> meets them.\<close>

definition pkg_findings :: "string \<Rightarrow> HostEntry list \<Rightarrow> float64 list" where
  "pkg_findings k entries =
     concat (map (\<lambda>e. map PackageVuln.Score (filter (\<lambda>pkg. pkg_key pkg = k) (HostEntry.Packages e))) entries)"

definition bulletin_findings :: "string \<Rightarrow> HostEntry list \<Rightarrow> float64 list" where
  "bulletin_findings k entries =
     concat (map (\<lambda>e. map BulletinSummary.Score
                          (filter (\<lambda>b. BulletinSummary.ID b = k) (HostEntry.Bulletins e))) entries)"

text \<open>Running maximum: the score kept for a key after a list of contributions.\<close>

definition max_step :: "float64 option \<Rightarrow> float64 \<Rightarrow> float64 option" where
  "max_step acc s = Some (case acc of None \<Rightarrow> s | Some t \<Rightarrow> max t s)"

definition pkg_score :: "(string \<times> PackageEntry) list \<Rightarrow> string \<Rightarrow> float64 option" where
  "pkg_score m k = map_option PackageEntry.Score (map_of m k)"

definition bulletin_score :: "(string \<times> BulletinEntry) list \<Rightarrow> string \<Rightarrow> float64 option" where
  "bulletin_score m k = map_option BulletinEntry.Score (map_of m k)"

text \<open>Two hosts that share one package and one bulletin, as in the aggregator's tests.\<close>

definition example_host1 :: HostEntry where
  "example_host1 = \<lparr>HostID = ''1'', Host = ''web1'', Name = ''Web Server 1'', OSName = ''ubuntu'',
     OSVersion = ''20.04'', Score = 5, CumulativeFix = [],
     Packages = [\<lparr>PackageVuln.Name = ''openssl'', Version = ''1.1.1'', Arch = [], Score = 5, Fix = [],
                  Bulletins = [''USN-1''], CVEs = [''CVE-1'']\<rparr>],
     Bulletins = [\<lparr>BulletinSummary.ID = ''USN-1'', Type = ''usn'', Score = 5, CVEs = [''CVE-1''], Fix = [],
                   AffectedPkg = [''openssl 1.1.1''], AffectedHosts = []\<rparr>]\<rparr>"

definition example_host2 :: HostEntry where
  "example_host2 = \<lparr>HostID = ''2'', Host = ''db1'', Name = ''DB Server'', OSName = ''ubuntu'',
     OSVersion = ''20.04'', Score = 9, CumulativeFix = [],
     Packages = [\<lparr>PackageVuln.Name = ''openssl'', Version = ''1.1.1'', Arch = [], Score = 9, Fix = [],
                  Bulletins = [''USN-1''], CVEs = [''CVE-1'']\<rparr>],
     Bulletins = [\<lparr>BulletinSummary.ID = ''USN-1'', Type = ''usn'', Score = 9, CVEs = [''CVE-1''], Fix = [],
                   AffectedPkg = [''openssl 1.1.1''], AffectedHosts = []\<rparr>]\<rparr>"

text \<open>The values of a list in the order of their first occurrence, and the values that
  \<open>AddHost\<close> inserts into the affected-host lists of one key, in the order of insertion.\<close>

definition first_occurrences :: "'a list \<Rightarrow> 'a list" where
  "first_occurrences xs = rev (remdups (rev xs))"

definition pkg_inserted :: "(HostEntry \<Rightarrow> string) \<Rightarrow> string \<Rightarrow> HostEntry list \<Rightarrow> string list" where
  "pkg_inserted f k entries =
     concat (map (\<lambda>e. map (\<lambda>pkg. f e) (filter (\<lambda>pkg. pkg_key pkg = k) (HostEntry.Packages e))) entries)"

definition bulletin_inserted :: "(HostEntry \<Rightarrow> string) \<Rightarrow> string \<Rightarrow> HostEntry list \<Rightarrow> string list" where
  "bulletin_inserted f k entries =
     concat (map (\<lambda>e. map (\<lambda>b. f e) (filter (\<lambda>b. BulletinSummary.ID b = k) (HostEntry.Bulletins e))) entries)"

definition pkg_field :: "(PackageEntry \<Rightarrow> string list) \<Rightarrow> (string \<times> PackageEntry) list \<Rightarrow> string \<Rightarrow> string list" where
  "pkg_field sel m k = (case map_of m k of None \<Rightarrow> [] | Some p \<Rightarrow> sel p)"

definition bulletin_field :: "(BulletinEntry \<Rightarrow> string list) \<Rightarrow> (string \<times> BulletinEntry) list \<Rightarrow> string \<Rightarrow> string list" where
  "bulletin_field sel m k = (case map_of m k of None \<Rightarrow> [] | Some b \<Rightarrow> sel b)"

section \<open>Results and statistics (aggregator.go)\<close>

record ScanResults =
  HostsScanned :: nat
  HostsWithVulns :: nat
  VulnerablePackages :: nat
  MaxCVSS :: float64
  Hosts :: "HostEntry list"
  Packages :: "PackageEntry list"
  Bulletins :: "BulletinEntry list"

text \<open>
  The result of a \<open>float64\<close> sum or quotient is a \<open>float64\<close> value that need not be the
  exact sum or quotient, and need not be finite. Such results are values of \<open>fvalue\<close>;
  \<open>Finite\<close> embeds the finite values, among them every score (the two zeros of
  \<open>float64\<close> compare equal and are the one value 0). The sum and the quotient
  themselves belong to the platform (IEEE 754 arithmetic) and are parameters of the
  embedding, as are the size of \<open>int\<close> and the result of converting to \<open>int\<close> a float
  whose integer part \<open>int\<close> cannot represent, which Go leaves to the implementation.
\<close>

datatype fvalue = Finite real | PosInf | NegInf | NaN

record platform =
  fadd :: "fvalue \<Rightarrow> fvalue \<Rightarrow> fvalue"
  fdivide :: "fvalue \<Rightarrow> fvalue \<Rightarrow> fvalue"
  int_size :: nat
  int_of_unrepresentable :: "float64 \<Rightarrow> int"

record Statistics =
  TotalHosts :: nat
  VulnerableHosts :: nat
  TotalPackages :: nat
  TotalBulletins :: nat
  TotalCVEs :: nat
  MaxCVSS :: float64
  AvgCVSS :: fvalue
  MinCVSS :: float64
  MedianCVSS :: fvalue
  Histogram :: "nat list"

text \<open>\<open>sort.Slice\<close> of the Go library sorts by a caller-supplied \<open>less\<close> function and is not
  stable; it is embedded as an insertion sort driven by the same \<open>less\<close>.\<close>

fun insert_less :: "('a \<Rightarrow> 'a \<Rightarrow> bool) \<Rightarrow> 'a \<Rightarrow> 'a list \<Rightarrow> 'a list" where
  "insert_less lt x [] = [x]"
| "insert_less lt x (y # ys) =
     (if lt x y then x # y # ys else y # insert_less lt x ys)"

definition sort_Slice :: "('a \<Rightarrow> 'a \<Rightarrow> bool) \<Rightarrow> 'a list \<Rightarrow> 'a list" where
  "sort_Slice lt xs = foldr (insert_less lt) xs []"

text \<open>The first loop of \<open>GetResults\<close>: vulnerable-host counter and running maximum.\<close>

fun results_host_step :: "nat \<times> float64 \<Rightarrow> HostEntry \<Rightarrow> nat \<times> float64" where
  "results_host_step (withVulns, maxCVSS) host =
     (if HostEntry.Score host > 0 then withVulns + 1 else withVulns,
      if HostEntry.Score host > maxCVSS then HostEntry.Score host else maxCVSS)"

definition GetResults :: "Aggregator \<Rightarrow> ScanResults" where
  "GetResults a =
     (let (withVulns, maxCVSS) = foldl results_host_step (0, 0) (hosts a);
          pkgs = map snd (packages a);
          buls = map snd (bulletins a)
      in \<lparr>HostsScanned = length (hosts a),
          HostsWithVulns = withVulns,
          VulnerablePackages = length pkgs,
          MaxCVSS = maxCVSS,
          Hosts = hosts a,
          Packages = sort_Slice (\<lambda>x y. PackageEntry.Score x > PackageEntry.Score y) pkgs,
          Bulletins = sort_Slice (\<lambda>x y. BulletinEntry.Score x > BulletinEntry.Score y) buls\<rparr>)"

datatype error = IndexOutOfRange | DivisionByZeroCount

text \<open>Indexing panics out of range. The quotient by the host count is the division that
  the non-empty check guards: a zero count is an error of the embedding, so that the
  guard's effect is a theorem.\<close>

definition index :: "'a list \<Rightarrow> int \<Rightarrow> error + 'a" where
  "index xs i = (if 0 \<le> i \<and> i < int (length xs) then Inr (xs ! nat i) else Inl IndexOutOfRange)"

definition fdiv :: "platform \<Rightarrow> fvalue \<Rightarrow> fvalue \<Rightarrow> error + fvalue" where
  "fdiv pf x y = (if y = Finite 0 then Inl DivisionByZeroCount else Inr (fdivide pf x y))"

text \<open>The conversion \<open>int(f)\<close> discards the fraction (truncation towards zero) when \<open>int\<close>
  can represent the result, and is implementation-dependent otherwise.\<close>

definition truncation :: "float64 \<Rightarrow> int" where
  "truncation x = (if x < 0 then \<lceil>x\<rceil> else \<lfloor>x\<rfloor>)"

definition representable :: "platform \<Rightarrow> int \<Rightarrow> bool" where
  "representable pf i = (- (2 ^ (int_size pf - 1)) \<le> i \<and> i < 2 ^ (int_size pf - 1))"

definition float_to_int :: "platform \<Rightarrow> float64 \<Rightarrow> int" where
  "float_to_int pf x =
     (if representable pf (truncation x) then truncation x else int_of_unrepresentable pf x)"

definition histogram_bucket :: "platform \<Rightarrow> float64 \<Rightarrow> int" where
  "histogram_bucket pf score =
     (let bucket = float_to_int pf score;
          bucket = (if bucket > 10 then 10 else bucket);
          bucket = (if bucket < 0 then 0 else bucket)
      in bucket)"

text \<open>The bucket in the words of the specification: the floor of the score, clamped
  into \<open>[0, 10]\<close>.\<close>

definition floor_clamped :: "float64 \<Rightarrow> int" where
  "floor_clamped score = max 0 (min 10 \<lfloor>score\<rfloor>)"

text \<open>One iteration of the host loop of \<open>GetStatistics\<close> over the statistics record,
  the running total and the collected scores.\<close>

fun stats_host_step ::
  "platform \<Rightarrow> Statistics \<times> fvalue \<times> float64 list \<Rightarrow> HostEntry
     \<Rightarrow> error + Statistics \<times> fvalue \<times> float64 list" where
  "stats_host_step pf (stats, totalScore, scores) host =
     (let stats1 = (if HostEntry.Score host > 0
                    then stats\<lparr>VulnerableHosts := VulnerableHosts stats + 1\<rparr> else stats);
          totalScore1 = fadd pf totalScore (Finite (HostEntry.Score host));
          scores1 = scores @ [HostEntry.Score host];
          stats2 = (if HostEntry.Score host > Statistics.MaxCVSS stats1
                    then stats1\<lparr>Statistics.MaxCVSS := HostEntry.Score host\<rparr> else stats1);
          bucket = histogram_bucket pf (HostEntry.Score host)
      in case index (Histogram stats2) bucket of
           Inl e \<Rightarrow> Inl e
         | Inr c \<Rightarrow> Inr (stats2\<lparr>Histogram := (Histogram stats2)[nat bucket := c + 1]\<rparr>,
                         totalScore1, scores1))"

fun stats_host_loop ::
  "platform \<Rightarrow> Statistics \<times> fvalue \<times> float64 list \<Rightarrow> HostEntry list
     \<Rightarrow> error + Statistics \<times> fvalue \<times> float64 list" where
  "stats_host_loop pf s [] = Inr s"
| "stats_host_loop pf s (host # rest) =
     (case stats_host_step pf s host of Inl e \<Rightarrow> Inl e | Inr s1 \<Rightarrow> stats_host_loop pf s1 rest)"

text \<open>The set of CVE ids, kept as a list without repetition.\<close>

definition cveSet :: "(string \<times> BulletinEntry) list \<Rightarrow> string list" where
  "cveSet m = foldl (\<lambda>s cve. List.insert cve s) [] (concat (map (\<lambda>(k, b). BulletinEntry.CVEs b) m))"

definition median_of :: "platform \<Rightarrow> float64 list \<Rightarrow> error + fvalue" where
  "median_of pf sortedScores =
     (let mid = int (length sortedScores) div 2
      in if int (length sortedScores) mod 2 = 0
         then (case index sortedScores (mid - 1) of
                 Inl e \<Rightarrow> Inl e
               | Inr lo \<Rightarrow> (case index sortedScores mid of
                              Inl e \<Rightarrow> Inl e
                            | Inr hi \<Rightarrow> Inr (fdivide pf (fadd pf (Finite lo) (Finite hi)) (Finite 2))))
         else (case index sortedScores mid of
                 Inl e \<Rightarrow> Inl e
               | Inr middle \<Rightarrow> Inr (Finite middle)))"

text \<open>\<open>float64(len(scores))\<close> is exact: a slice has fewer than \<open>2^53\<close> elements.\<close>

definition GetStatistics :: "platform \<Rightarrow> Aggregator \<Rightarrow> error + Statistics" where
  "GetStatistics pf a =
     (let stats = \<lparr>TotalHosts = length (hosts a), VulnerableHosts = 0,
                   TotalPackages = length (packages a), TotalBulletins = length (bulletins a),
                   TotalCVEs = 0, MaxCVSS = 0, AvgCVSS = Finite 0, MinCVSS = 0,
                   MedianCVSS = Finite 0, Histogram = replicate 11 0\<rparr>
      in case stats_host_loop pf (stats, Finite 0, []) (hosts a) of
           Inl e \<Rightarrow> Inl e
         | Inr (stats1, totalScore, scores) \<Rightarrow>
            (let stats2 = stats1\<lparr>TotalCVEs := length (cveSet (bulletins a))\<rparr>
             in if length scores > 0
                then (case fdiv pf totalScore (Finite (real (length scores))) of
                        Inl e \<Rightarrow> Inl e
                      | Inr avg \<Rightarrow>
                         (let sortedScores = sort scores
                          in case index sortedScores 0 of
                               Inl e \<Rightarrow> Inl e
                             | Inr lowest \<Rightarrow>
                                (case median_of pf sortedScores of
                                   Inl e \<Rightarrow> Inl e
                                 | Inr median \<Rightarrow>
                                    Inr (stats2\<lparr>AvgCVSS := avg, MinCVSS := lowest,
                                                MedianCVSS := median\<rparr>))))
                else Inr stats2))"

text \<open>The scores of the added hosts, in insertion order.\<close>

definition host_scores :: "Aggregator \<Rightarrow> float64 list" where
  "host_scores a = map HostEntry.Score (hosts a)"

text \<open>A host entry with a score and no findings (the form used by the statistics tests),
  and the statistics record with every field zero.\<close>

definition score_host :: "string \<Rightarrow> float64 \<Rightarrow> HostEntry" where
  "score_host hid s = \<lparr>HostID = hid, Host = [], Name = [], OSName = [], OSVersion = [],
     Score = s, CumulativeFix = [], Packages = [], Bulletins = []\<rparr>"

definition zero_statistics :: Statistics where
  "zero_statistics = \<lparr>TotalHosts = 0, VulnerableHosts = 0, TotalPackages = 0, TotalBulletins = 0,
     TotalCVEs = 0, MaxCVSS = 0, AvgCVSS = Finite 0, MinCVSS = 0, MedianCVSS = Finite 0,
     Histogram = [0, 0, 0, 0, 0, 0, 0, 0, 0, 0, 0]\<rparr>"

text \<open>The amd64 port: \<open>int\<close> has 64 bits, and the conversion instruction returns the least
  \<open>int\<close> for a float whose integer part does not fit. Its sum and quotient stay parameters.\<close>

definition amd64 :: "(fvalue \<Rightarrow> fvalue \<Rightarrow> fvalue) \<Rightarrow> (fvalue \<Rightarrow> fvalue \<Rightarrow> fvalue) \<Rightarrow> platform" where
  "amd64 add quot = \<lparr>fadd = add, fdivide = quot, int_size = 64,
                     int_of_unrepresentable = (\<lambda>x. - (2 ^ 63))\<rparr>"

text \<open>Sum and quotient of finite operands whose exact result is again a \<open>float64\<close> value,
  where IEEE 754 arithmetic returns that exact result; for the examples.\<close>

fun exact_add :: "fvalue \<Rightarrow> fvalue \<Rightarrow> fvalue" where
  "exact_add (Finite x) (Finite y) = Finite (x + y)"
| "exact_add x y = NaN"

fun exact_div :: "fvalue \<Rightarrow> fvalue \<Rightarrow> fvalue" where
  "exact_div (Finite x) (Finite y) =
     (if y \<noteq> 0 then Finite (x / y)
      else if x > 0 then PosInf else if x < 0 then NegInf else NaN)"
| "exact_div x y = NaN"

section \<open>Strings (the functions of Go's \<open>strings\<close> package that the code calls)\<close>

text \<open>
  Strings are byte strings. \<open>strings.Fields\<close>, \<open>strings.TrimSpace\<close> and \<open>strings.ToLower\<close>
  decode their argument as UTF-8 and follow the Unicode tables of the Go library; they
  are parameters of every function of the embedding that calls them, written \<open>Fields\<close>,
  \<open>TrimSpace\<close> and \<open>ToLower\<close>. \<open>strings.Contains\<close>, \<open>strings.Split\<close> and \<open>strings.Join\<close>
  compare and copy bytes, and are embedded as functions on byte strings, as are the byte
  classes of the regular expressions.
\<close>

definition isDigit :: "char \<Rightarrow> bool" where
  "isDigit c = (c \<in> set ''0123456789'')"

definition isAlnum :: "char \<Rightarrow> bool" where
  "isAlnum c = (c \<in> set ''abcdefghijklmnopqrstuvwxyzABCDEFGHIJKLMNOPQRSTUVWXYZ0123456789'')"

text \<open>\<open>strings.Split\<close> with a separator of one byte, as at both call sites.\<close>

fun Split_loop :: "char \<Rightarrow> string \<Rightarrow> string \<Rightarrow> string list" where
  "Split_loop sep piece [] = [piece]"
| "Split_loop sep piece (c # cs) =
     (if c = sep then piece # Split_loop sep [] cs else Split_loop sep (piece @ [c]) cs)"

definition Split :: "string \<Rightarrow> char \<Rightarrow> string list" where
  "Split s sep = Split_loop sep [] s"

fun HasPrefix :: "string \<Rightarrow> string \<Rightarrow> bool" where
  "HasPrefix s [] = True"
| "HasPrefix [] (p # ps) = False"
| "HasPrefix (c # cs) (p # ps) = (c = p \<and> HasPrefix cs ps)"

fun Contains :: "string \<Rightarrow> string \<Rightarrow> bool" where
  "Contains [] substr = (substr = [])"
| "Contains (c # cs) substr = (HasPrefix (c # cs) substr \<or> Contains cs substr)"

fun Join :: "string list \<Rightarrow> string \<Rightarrow> string" where
  "Join [] sep = []"
| "Join [x] sep = x"
| "Join (x # y # ys) sep = x @ sep @ Join (y # ys) sep"

section \<open>Package lines and OS names (osutil.go)\<close>

definition ParsePackageString :: "(string \<Rightarrow> string list) \<Rightarrow> string \<Rightarrow> string \<times> string \<times> string" where
  "ParsePackageString Fields pkg =
     (let parts = Fields pkg
      in if length parts = 3 then (parts ! 0, parts ! 1, parts ! 2)
         else if length parts = 2 then (parts ! 0, parts ! 1, [])
         else if length parts = 1 then (parts ! 0, [], [])
         else (pkg, [], []))"

definition NormalizeOSName :: "(string \<Rightarrow> string) \<Rightarrow> string \<Rightarrow> string" where
  "NormalizeOSName ToLower osName0 =
     (let osName = ToLower osName0
      in if Contains osName ''ubuntu'' then ''ubuntu''
         else if Contains osName ''debian'' then ''debian''
         else if Contains osName ''centos'' then ''centos''
         else if Contains osName ''red hat'' \<or> Contains osName ''rhel'' then ''redhat''
         else if Contains osName ''amazon'' then ''amazon''
         else if Contains osName ''oracle'' then ''oraclelinux''
         else if Contains osName ''suse'' then ''suse''
         else if Contains osName ''fedora'' then ''fedora''
         else if Contains osName ''alpine'' then ''alpine''
         else if Contains osName ''arch'' then ''arch''
         else osName)"

definition ExtractOSVersion :: "(string \<Rightarrow> string list) \<Rightarrow> string \<Rightarrow> string" where
  "ExtractOSVersion Fields osVersion =
     (let parts = Fields osVersion
      in if length parts > 0 then parts ! 0 else osVersion)"

section \<open>Validation of remediation inputs (package fixer, sanitize)\<close>

datatype validation_error =
    HostTargetEmpty
  | InvalidHostTarget string
  | PackageNameEmpty
  | PackageNameTooLong nat
  | InvalidPackageName string
  | SSHUserEmpty
  | SSHUserTooLong nat
  | InvalidSSHUser string

text \<open>The three regular expressions, each as the predicate "the whole string matches":
  \<^verbatim>\<open>^[a-zA-Z0-9][a-zA-Z0-9._+:~-]*$\<close>, \<^verbatim>\<open>^[a-zA-Z_][a-zA-Z0-9._-]*$\<close> and
  \<^verbatim>\<open>^[a-zA-Z0-9]([a-zA-Z0-9.-]{0,251}[a-zA-Z0-9])?$\<close>.\<close>

definition packageNameRe :: "string \<Rightarrow> bool" where
  "packageNameRe s =
     (case s of
        [] \<Rightarrow> False
      | c # cs \<Rightarrow> isAlnum c \<and> list_all (\<lambda>c. isAlnum c \<or> c \<in> set ''._+:~-'') cs)"

definition sshUserRe :: "string \<Rightarrow> bool" where
  "sshUserRe s =
     (case s of
        [] \<Rightarrow> False
      | c # cs \<Rightarrow> ((isAlnum c \<and> \<not> isDigit c) \<or> c = CHR ''_'')
                 \<and> list_all (\<lambda>c. isAlnum c \<or> c \<in> set ''._-'') cs)"

definition fqdnRe :: "string \<Rightarrow> bool" where
  "fqdnRe s =
     (case s of
        [] \<Rightarrow> False
      | c # cs \<Rightarrow> isAlnum c \<and>
          (cs = [] \<or>
           (length (butlast cs) \<le> 251
            \<and> list_all (\<lambda>c. isAlnum c \<or> c \<in> set ''.-'') (butlast cs)
            \<and> isAlnum (last cs))))"

fun label_loop :: "string list \<Rightarrow> bool" where
  "label_loop [] = True"
| "label_loop (label # labels) =
     (if length label = 0 \<or> length label > 63 then False else label_loop labels)"

definition isValidFQDN :: "string \<Rightarrow> bool" where
  "isValidFQDN s =
     (if length s > 253 then False
      else if \<not> fqdnRe s then False
      else label_loop (Split s CHR ''.''))"

text \<open>\<open>net.ParseIP\<close> belongs to the Go library; whether it parses the target is a
  parameter of the embedding.\<close>

definition ValidateHostTarget :: "(string \<Rightarrow> bool) \<Rightarrow> string \<Rightarrow> validation_error + unit" where
  "ValidateHostTarget ParseIP target =
     (if target = [] then Inl HostTargetEmpty
      else if ParseIP target then Inr ()
      else if isValidFQDN target then Inr ()
      else Inl (InvalidHostTarget target))"

definition ValidatePackageName :: "string \<Rightarrow> validation_error + unit" where
  "ValidatePackageName name =
     (if name = [] then Inl PackageNameEmpty
      else if length name > 256 then Inl (PackageNameTooLong (length name))
      else if \<not> packageNameRe name then Inl (InvalidPackageName name)
      else Inr ())"

definition ValidateSSHUser :: "string \<Rightarrow> validation_error + unit" where
  "ValidateSSHUser user =
     (if user = [] then Inl SSHUserEmpty
      else if length user > 64 then Inl (SSHUserTooLong (length user))
      else if \<not> sshUserRe user then Inl (InvalidSSHUser user)
      else Inr ())"

fun SanitizePackages :: "string list \<Rightarrow> validation_error + unit" where
  "SanitizePackages [] = Inr ()"
| "SanitizePackages (pkg # pkgs) =
     (case ValidatePackageName pkg of
        Inl err \<Rightarrow> Inl err
      | Inr _ \<Rightarrow> SanitizePackages pkgs)"

section \<open>Fix commands and their execution (package fixer, executor.go)\<close>

definition quotePackages :: "string list \<Rightarrow> string" where
  "quotePackages pkgs = Join (map (\<lambda>pkg. [CHR 0x27] @ pkg @ [CHR 0x27]) pkgs) '' ''"

definition generateDebianFixCommand :: "string list \<Rightarrow> string" where
  "generateDebianFixCommand pkgs =
     (if length pkgs = 0 then ''apt-get update && apt-get upgrade -y''
      else ''apt-get update && apt-get install -y --only-upgrade '' @ quotePackages pkgs)"

definition generateRHELFixCommand :: "string list \<Rightarrow> string" where
  "generateRHELFixCommand pkgs =
     (if length pkgs = 0 then ''yum update -y''
      else ''yum update -y '' @ quotePackages pkgs)"

definition generateAmazonFixCommand :: "string list \<Rightarrow> string" where
  "generateAmazonFixCommand pkgs =
     (if length pkgs = 0 then ''yum update -y''
      else ''yum update -y '' @ quotePackages pkgs)"

definition GenerateFixCommand :: "(string \<Rightarrow> string) \<Rightarrow> string \<Rightarrow> string list \<Rightarrow> string" where
  "GenerateFixCommand ToLower osName0 pkgs0 =
     (let pkgs = (case SanitizePackages pkgs0 of Inl err \<Rightarrow> [] | Inr _ \<Rightarrow> pkgs0);
          osName = ToLower osName0
      in if Contains osName ''ubuntu'' \<or> Contains osName ''debian''
         then generateDebianFixCommand pkgs
         else if Contains osName ''centos'' \<or> Contains osName ''red hat''
                 \<or> Contains osName ''redhat'' \<or> Contains osName ''rhel''
         then generateRHELFixCommand pkgs
         else if Contains osName ''amazon''
         then generateAmazonFixCommand pkgs
         else generateDebianFixCommand pkgs)"

text \<open>A subprocess is a path with its arguments. Running it (\<open>cmd.Run\<close>) is a parameter
  that yields the captured standard output, the captured standard error and the error of
  the run, if any. Each execution function returns its result together with the list of
  the subprocesses it has spawned.\<close>

record Cmd =
  Path :: string
  Args :: "string list"

datatype 'r exec_error =
    InvalidHost validation_error
  | InvalidSSHUserError validation_error
  | ZabbixGetFailed 'r string
  | SSHFailed 'r string

definition ExecuteViaAgent ::
  "(string \<Rightarrow> bool) \<Rightarrow> (Cmd \<Rightarrow> string \<times> string \<times> 'r option) \<Rightarrow> string
     \<Rightarrow> string \<Rightarrow> string \<Rightarrow> string \<Rightarrow> ('r exec_error + string) \<times> Cmd list" where
  "ExecuteViaAgent ParseIP Run GetPath hostIP port0 command =
     (case ValidateHostTarget ParseIP hostIP of
        Inl err \<Rightarrow> (Inl (InvalidHost err), [])
      | Inr _ \<Rightarrow>
         (let port = (if port0 = [] then ''10050'' else port0);
              key = ''system.run['' @ command @ '',nowait]'';
              cmd = \<lparr>Path = GetPath, Args = [''-s'', hostIP, ''-p'', port, ''-k'', key]\<rparr>
          in case Run cmd of
               (stdout, stderr, Some err) \<Rightarrow> (Inl (ZabbixGetFailed err stderr), [cmd])
             | (stdout, stderr, None) \<Rightarrow> (Inr stdout, [cmd])))"

definition ExecuteViaSSH ::
  "(string \<Rightarrow> bool) \<Rightarrow> (Cmd \<Rightarrow> string \<times> string \<times> 'r option)
     \<Rightarrow> string \<Rightarrow> string \<Rightarrow> string \<Rightarrow> ('r exec_error + string) \<times> Cmd list" where
  "ExecuteViaSSH ParseIP Run hostIP user command =
     (case ValidateHostTarget ParseIP hostIP of
        Inl err \<Rightarrow> (Inl (InvalidHost err), [])
      | Inr _ \<Rightarrow>
         (case ValidateSSHUser user of
            Inl err \<Rightarrow> (Inl (InvalidSSHUserError err), [])
          | Inr _ \<Rightarrow>
             (let cmd = \<lparr>Path = ''ssh'',
                         Args = [''-o'', ''BatchMode=yes'', ''-o'', ''ConnectTimeout=10'',
                                 user @ ''@'' @ hostIP, command]\<rparr>
              in case Run cmd of
                   (stdout, stderr, Some err) \<Rightarrow> (Inl (SSHFailed err stderr), [cmd])
                 | (stdout, stderr, None) \<Rightarrow> (Inr stdout, [cmd]))))"

section \<open>The host matrix (hostmatrix.go)\<close>

datatype 'e fetch_error = FailedToGetOSItems 'e | FailedToGetPackageItems 'e

fun validateHostData_loop :: "string list \<Rightarrow> string" where
  "validateHostData_loop [] = []"
| "validateHostData_loop (pkg # pkgs) =
     (if Contains pkg ''report.py'' then ''report.py in packages''
      else validateHostData_loop pkgs)"

definition validateHostData :: "string \<Rightarrow> string list \<Rightarrow> string" where
  "validateHostData osVersion pkgs =
     (if osVersion = ''0.0'' then ''OS version 0.0''
      else if length pkgs \<le> 5 then ''too few packages''
      else validateHostData_loop pkgs)"

fun parseOSInfo_loop :: "string list \<Rightarrow> string list \<Rightarrow> string list \<times> string" where
  "parseOSInfo_loop nameParts [] = (nameParts, [])"
| "parseOSInfo_loop nameParts (part # parts) =
     (if length part > 0 \<and> isDigit (hd part) then (nameParts, part)
      else parseOSInfo_loop (nameParts @ [part]) parts)"

definition parseOSInfo ::
  "(string \<Rightarrow> string) \<Rightarrow> (string \<Rightarrow> string list) \<Rightarrow> (string \<Rightarrow> string)
     \<Rightarrow> string \<Rightarrow> string \<times> string" where
  "parseOSInfo TrimSpace Fields ToLower osInfo0 =
     (let osInfo = TrimSpace osInfo0;
          parts = Fields osInfo
      in if length parts = 0 then ([], [])
         else (let (nameParts, version) = parseOSInfo_loop [] parts
               in (ToLower (Join nameParts '' ''), version)))"

fun parsePackageList_loop :: "(string \<Rightarrow> string) \<Rightarrow> string list \<Rightarrow> string list \<Rightarrow> string list" where
  "parsePackageList_loop TrimSpace pkgs [] = pkgs"
| "parsePackageList_loop TrimSpace pkgs (line0 # lines) =
     (let line = TrimSpace line0
      in if line = [] then parsePackageList_loop TrimSpace pkgs lines
         else parsePackageList_loop TrimSpace (pkgs @ [line]) lines)"

definition parsePackageList :: "(string \<Rightarrow> string) \<Rightarrow> string \<Rightarrow> string list" where
  "parsePackageList TrimSpace pkgList = parsePackageList_loop TrimSpace [] (Split pkgList CHR 0x0A)"

text \<open>The two loops of \<open>fetchHostData\<close> that take the first item with a non-empty value.\<close>

fun osItems_loop ::
  "(string \<Rightarrow> string) \<Rightarrow> (string \<Rightarrow> string list) \<Rightarrow> (string \<Rightarrow> string)
     \<Rightarrow> zabbix_Item list \<Rightarrow> string \<times> string" where
  "osItems_loop TrimSpace Fields ToLower [] = ([], [])"
| "osItems_loop TrimSpace Fields ToLower (item # items) =
     (if zabbix_Item.Value item \<noteq> []
      then parseOSInfo TrimSpace Fields ToLower (zabbix_Item.Value item)
      else osItems_loop TrimSpace Fields ToLower items)"

fun pkgItems_loop :: "(string \<Rightarrow> string) \<Rightarrow> zabbix_Item list \<Rightarrow> string list" where
  "pkgItems_loop TrimSpace [] = []"
| "pkgItems_loop TrimSpace (item # items) =
     (if zabbix_Item.Value item \<noteq> [] then parsePackageList TrimSpace (zabbix_Item.Value item)
      else pkgItems_loop TrimSpace items)"

text \<open>The monitor client's item query (\<open>GetHostItemsCtx\<close>, by host id and key pattern) is
  a parameter. The result \<open>Inr None\<close> is the source's \<open>nil, nil\<close>: no entry, no error.\<close>

definition fetchHostData ::
  "(string \<Rightarrow> string) \<Rightarrow> (string \<Rightarrow> string list) \<Rightarrow> (string \<Rightarrow> string)
     \<Rightarrow> (string \<Rightarrow> string \<Rightarrow> 'e + zabbix_Item list) \<Rightarrow> zabbix_Host
     \<Rightarrow> 'e fetch_error + HostData option" where
  "fetchHostData TrimSpace Fields ToLower GetHostItems host =
     (case GetHostItems (zabbix_Host.HostID host) ''system.sw.os'' of
        Inl err \<Rightarrow> Inl (FailedToGetOSItems err)
      | Inr osItems \<Rightarrow>
         (let (osName, osVersion) = osItems_loop TrimSpace Fields ToLower osItems
          in if osName = [] then Inr None
             else (case GetHostItems (zabbix_Host.HostID host) ''system.sw.packages'' of
                     Inl err \<Rightarrow> Inl (FailedToGetPackageItems err)
                   | Inr pkgItems \<Rightarrow>
                      (let pkgs = pkgItems_loop TrimSpace pkgItems
                       in if length pkgs = 0 then Inr None
                          else (let osName1 = NormalizeOSName ToLower osName;
                                    osVersion1 = ExtractOSVersion Fields osVersion
                                in if validateHostData osVersion1 pkgs \<noteq> [] then Inr None
                                   else Inr (Some \<lparr>HostData.Host = host,
                                                    OSName = osName1,
                                                    OSVersion = osVersion1,
                                                    Packages = pkgs\<rparr>))))))"

section \<open>Values for the examples\<close>

text \<open>
  On a string of ASCII bytes the white space of \<open>strings.Fields\<close> and \<open>strings.TrimSpace\<close>
  is tab, line feed, vertical tab, form feed, carriage return and space, and
  \<open>strings.ToLower\<close> maps \<open>A\<close>..\<open>Z\<close> to \<open>a\<close>..\<open>z\<close>. The three functions below do that on
  every byte string; they are the values that the examples give to the parameters
  \<open>Fields\<close>, \<open>TrimSpace\<close> and \<open>ToLower\<close>, on ASCII arguments only.
\<close>

definition ascii_space :: "char \<Rightarrow> bool" where
  "ascii_space c = (c \<in> set [CHR 0x09, CHR 0x0A, CHR 0x0B, CHR 0x0C, CHR 0x0D, CHR '' ''])"

fun ascii_Fields_loop :: "string \<Rightarrow> string \<Rightarrow> string list" where
  "ascii_Fields_loop field [] = (if field = [] then [] else [field])"
| "ascii_Fields_loop field (c # cs) =
     (if ascii_space c
      then (if field = [] then ascii_Fields_loop [] cs else field # ascii_Fields_loop [] cs)
      else ascii_Fields_loop (field @ [c]) cs)"

definition ascii_Fields :: "string \<Rightarrow> string list" where
  "ascii_Fields s = ascii_Fields_loop [] s"

definition ascii_TrimSpace :: "string \<Rightarrow> string" where
  "ascii_TrimSpace s = rev (dropWhile ascii_space (rev (dropWhile ascii_space s)))"

definition ascii_lower :: "char \<Rightarrow> char" where
  "ascii_lower c =
     (case map_of (zip ''ABCDEFGHIJKLMNOPQRSTUVWXYZ'' ''abcdefghijklmnopqrstuvwxyz'') c of
        None \<Rightarrow> c | Some l \<Rightarrow> l)"

definition ascii_ToLower :: "string \<Rightarrow> string" where
  "ascii_ToLower s = map ascii_lower s"

text \<open>A monitor that answers the two item queries with one item each, a host and six
  package lines, for the eligibility examples.\<close>

definition example_item :: "string \<Rightarrow> string \<Rightarrow> zabbix_Item" where
  "example_item k v = \<lparr>ItemID = ''1'', HostID = ''10084'', Name = k, Key = k, Value = v,
                        ValueType = ''4'', State = ''0''\<rparr>"

definition example_monitor :: "string \<Rightarrow> string \<Rightarrow> string \<Rightarrow> string \<Rightarrow> unit + zabbix_Item list" where
  "example_monitor os pkgList hostid k =
     (if k = ''system.sw.os'' then Inr [example_item k os] else Inr [example_item k pkgList])"

definition example_zabbix_host :: zabbix_Host where
  "example_zabbix_host = \<lparr>zabbix_Host.HostID = ''10084'', Host = ''web1'', Name = ''Web Server 1'', Status = ''0''\<rparr>"

definition example_packages :: "string list" where
  "example_packages = [''openssl 1.1.1f amd64'', ''bash 5.0 amd64'', ''curl 7.68 amd64'',
                       ''nginx 1.18.0 amd64'', ''vim 8.1 amd64'', ''zlib1g 1.2.11 amd64'']"

section \<open>Score propagation\<close>

lemma pkg_score_addPackage:
  "pkg_score (addPackage entry m pkg) k =
     (if k = pkg_key pkg then max_step (pkg_score m k) (PackageVuln.Score pkg) else pkg_score m k)"
  by (auto simp: pkg_score_def addPackage_def Let_def update_conv' max_step_def max_def
           split: option.splits)

lemma bulletin_score_addBulletin:
  "bulletin_score (addBulletin entry m b) k =
     (if k = BulletinSummary.ID b then max_step (bulletin_score m k) (BulletinSummary.Score b)
      else bulletin_score m k)"
  by (auto simp: bulletin_score_def addBulletin_def Let_def update_conv' max_step_def max_def
           split: option.splits)

lemma pkg_score_foldl:
  "pkg_score (foldl (addPackage entry) m pkgs) k =
     foldl max_step (pkg_score m k) (map PackageVuln.Score (filter (\<lambda>pkg. pkg_key pkg = k) pkgs))"
  by (induction pkgs arbitrary: m) (simp_all add: pkg_score_addPackage)

lemma bulletin_score_foldl:
  "bulletin_score (foldl (addBulletin entry) m bs) k =
     foldl max_step (bulletin_score m k)
       (map BulletinSummary.Score (filter (\<lambda>b. BulletinSummary.ID b = k) bs))"
  by (induction bs arbitrary: m) (simp_all add: bulletin_score_addBulletin)

lemma packages_AddHost:
  "packages (AddHost a e) = foldl (addPackage e) (packages a) (HostEntry.Packages e)"
  by (simp add: AddHost_def)

lemma bulletins_AddHost:
  "bulletins (AddHost a e) = foldl (addBulletin e) (bulletins a) (HostEntry.Bulletins e)"
  by (simp add: AddHost_def)

lemma hosts_AddHost: "hosts (AddHost a e) = hosts a @ [e]"
  by (simp add: AddHost_def)

lemma AddHosts_Nil: "AddHosts a [] = a"
  by (simp add: AddHosts_def)

lemma AddHosts_Cons: "AddHosts a (e # es) = AddHosts (AddHost a e) es"
  by (simp add: AddHosts_def)

lemma AddHosts_snoc: "AddHosts a (es @ [e]) = AddHost (AddHosts a es) e"
  by (simp add: AddHosts_def)

lemma pkg_score_AddHosts:
  "pkg_score (packages (AddHosts a es)) k =
     foldl max_step (pkg_score (packages a) k) (pkg_findings k es)"
proof (induction es arbitrary: a)
  case Nil
  show ?case by (simp add: AddHosts_Nil pkg_findings_def)
next
  case (Cons e es)
  have "pkg_findings k (e # es) =
          map PackageVuln.Score (filter (\<lambda>pkg. pkg_key pkg = k) (HostEntry.Packages e))
          @ pkg_findings k es"
    by (simp add: pkg_findings_def)
  then show ?case
    by (simp add: AddHosts_Cons Cons.IH packages_AddHost pkg_score_foldl)
qed

lemma bulletin_score_AddHosts:
  "bulletin_score (bulletins (AddHosts a es)) k =
     foldl max_step (bulletin_score (bulletins a) k) (bulletin_findings k es)"
proof (induction es arbitrary: a)
  case Nil
  show ?case by (simp add: AddHosts_Nil bulletin_findings_def)
next
  case (Cons e es)
  have "bulletin_findings k (e # es) =
          map BulletinSummary.Score (filter (\<lambda>b. BulletinSummary.ID b = k) (HostEntry.Bulletins e))
          @ bulletin_findings k es"
    by (simp add: bulletin_findings_def)
  then show ?case
    by (simp add: AddHosts_Cons Cons.IH bulletins_AddHost bulletin_score_foldl)
qed

lemma max_step_Some: "max_step (Some t) x = Some (max t x)"
  by (simp add: max_step_def)

lemma max_step_None: "max_step None x = Some x"
  by (simp add: max_step_def)

lemma foldl_max_step_Some:
  "foldl max_step (Some t) xs = Some (Max (set (t # xs)))"
proof (induction xs arbitrary: t)
  case Nil
  show ?case by simp
next
  case (Cons x xs)
  have "Max (set (max t x # xs)) = Max (set (t # x # xs))"
  proof (cases "xs = []")
    case True
    then show ?thesis by (simp add: max.commute)
  next
    case False
    then show ?thesis by (simp add: max.assoc)
  qed
  then show ?case by (simp only: foldl_Cons max_step_Some Cons.IH)
qed

lemma foldl_max_step_None:
  "foldl max_step None xs = (if xs = [] then None else Some (Max (set xs)))"
proof (cases xs)
  case Nil
  then show ?thesis by simp
next
  case (Cons x ys)
  then show ?thesis by (simp add: max_step_None foldl_max_step_Some)
qed

lemma foldl_max_step_mono:
  "\<exists>s'. foldl max_step (Some s) xs = Some s' \<and> s \<le> s'"
  by (simp add: foldl_max_step_Some)

lemma pkg_score_SomeD:
  "pkg_score m k = Some s \<Longrightarrow> \<exists>p. map_of m k = Some p \<and> PackageEntry.Score p = s"
  by (auto simp: pkg_score_def)

lemma bulletin_score_SomeD:
  "bulletin_score m k = Some s \<Longrightarrow> \<exists>b. map_of m k = Some b \<and> BulletinEntry.Score b = s"
  by (auto simp: bulletin_score_def)

lemma pkg_step_mono:
  assumes "map_of (packages a) k = Some p"
  shows "\<exists>p'. map_of (packages (AddHost a e)) k = Some p' \<and> PackageEntry.Score p \<le> PackageEntry.Score p'"
proof -
  let ?xs = "map PackageVuln.Score (filter (\<lambda>pkg. pkg_key pkg = k) (HostEntry.Packages e))"
  have "pkg_score (packages a) k = Some (PackageEntry.Score p)"
    using assms by (simp add: pkg_score_def)
  then have "pkg_score (packages (AddHost a e)) k = Some (Max (set (PackageEntry.Score p # ?xs)))"
    by (simp only: packages_AddHost pkg_score_foldl foldl_max_step_Some)
  moreover have "PackageEntry.Score p \<le> Max (set (PackageEntry.Score p # ?xs))"
    by simp
  ultimately show ?thesis
    by (metis pkg_score_SomeD)
qed

lemma bulletin_step_mono:
  assumes "map_of (bulletins a) k = Some b"
  shows "\<exists>b'. map_of (bulletins (AddHost a e)) k = Some b' \<and> BulletinEntry.Score b \<le> BulletinEntry.Score b'"
proof -
  let ?xs = "map BulletinSummary.Score (filter (\<lambda>x. BulletinSummary.ID x = k) (HostEntry.Bulletins e))"
  have "bulletin_score (bulletins a) k = Some (BulletinEntry.Score b)"
    using assms by (simp add: bulletin_score_def)
  then have "bulletin_score (bulletins (AddHost a e)) k = Some (Max (set (BulletinEntry.Score b # ?xs)))"
    by (simp only: bulletins_AddHost bulletin_score_foldl foldl_max_step_Some)
  moreover have "BulletinEntry.Score b \<le> Max (set (BulletinEntry.Score b # ?xs))"
    by simp
  ultimately show ?thesis
    by (metis bulletin_score_SomeD)
qed

lemma pkg_score_final:
  "pkg_score (packages (AddHosts NewAggregator es)) k =
     (if pkg_findings k es = [] then None else Some (Max (set (pkg_findings k es))))"
proof -
  have "pkg_score (packages NewAggregator) k = None"
    by (simp add: NewAggregator_def pkg_score_def)
  then show ?thesis
    by (simp only: pkg_score_AddHosts foldl_max_step_None)
qed

lemma bulletin_score_final:
  "bulletin_score (bulletins (AddHosts NewAggregator es)) k =
     (if bulletin_findings k es = [] then None else Some (Max (set (bulletin_findings k es))))"
proof -
  have "bulletin_score (bulletins NewAggregator) k = None"
    by (simp add: NewAggregator_def bulletin_score_def)
  then show ?thesis
    by (simp only: bulletin_score_AddHosts foldl_max_step_None)
qed

lemma pkg_final_max:
  assumes "map_of (packages (AddHosts NewAggregator es)) k = Some p"
  shows "pkg_findings k es \<noteq> [] \<and> PackageEntry.Score p = Max (set (pkg_findings k es))"
proof -
  have "pkg_score (packages (AddHosts NewAggregator es)) k = Some (PackageEntry.Score p)"
    using assms by (simp add: pkg_score_def)
  then show ?thesis
    by (simp add: pkg_score_final split: if_splits)
qed

lemma bulletin_final_max:
  assumes "map_of (bulletins (AddHosts NewAggregator es)) k = Some b"
  shows "bulletin_findings k es \<noteq> [] \<and> BulletinEntry.Score b = Max (set (bulletin_findings k es))"
proof -
  have "bulletin_score (bulletins (AddHosts NewAggregator es)) k = Some (BulletinEntry.Score b)"
    using assms by (simp add: bulletin_score_def)
  then show ?thesis
    by (simp add: bulletin_score_final split: if_splits)
qed

lemma pkg_final_exists:
  assumes "pkg_findings k es \<noteq> []"
  shows "\<exists>p. map_of (packages (AddHosts NewAggregator es)) k = Some p"
  using assms pkg_score_final [of es k] pkg_score_SomeD by fastforce

lemma bulletin_final_exists:
  assumes "bulletin_findings k es \<noteq> []"
  shows "\<exists>b. map_of (bulletins (AddHosts NewAggregator es)) k = Some b"
  using assms bulletin_score_final [of es k] bulletin_score_SomeD by fastforce

text \<open>
  Claim C1. One \<open>AddHost\<close> call never lowers the score of a package aggregate or of a
  bulletin aggregate that exists before the call, whatever the state of the aggregator;
  and after any sequence of \<open>AddHost\<close> calls on a fresh aggregator, an aggregate exists
  for a key exactly when some finding contributed to that key, and its score is the
  maximum of the scores of the contributing findings.
\<close>

theorem AddHost_score_monotone_max:
  "(\<forall>p. map_of (packages a) k = Some p \<longrightarrow>
        (\<exists>p'. map_of (packages (AddHost a e)) k = Some p' \<and>
              PackageEntry.Score p \<le> PackageEntry.Score p'))
   \<and> (\<forall>b. map_of (bulletins a) k = Some b \<longrightarrow>
        (\<exists>b'. map_of (bulletins (AddHost a e)) k = Some b' \<and>
              BulletinEntry.Score b \<le> BulletinEntry.Score b'))
   \<and> (\<forall>p. map_of (packages (AddHosts NewAggregator es)) k = Some p \<longrightarrow>
        pkg_findings k es \<noteq> [] \<and> PackageEntry.Score p = Max (set (pkg_findings k es)))
   \<and> (\<forall>b. map_of (bulletins (AddHosts NewAggregator es)) k = Some b \<longrightarrow>
        bulletin_findings k es \<noteq> [] \<and> BulletinEntry.Score b = Max (set (bulletin_findings k es)))
   \<and> (pkg_findings k es \<noteq> [] \<longrightarrow>
        (\<exists>p. map_of (packages (AddHosts NewAggregator es)) k = Some p))
   \<and> (bulletin_findings k es \<noteq> [] \<longrightarrow>
        (\<exists>b. map_of (bulletins (AddHosts NewAggregator es)) k = Some b))"
  using pkg_step_mono bulletin_step_mono pkg_final_max bulletin_final_max
        pkg_final_exists bulletin_final_exists
  by blast

theorem AddHost_score_monotone_max_witness:
  "(\<exists>p. map_of (packages (AddHost NewAggregator example_host1)) ''openssl|1.1.1|'' = Some p \<and>
        PackageEntry.Score p = 5 \<and>
        (\<exists>p'. map_of (packages (AddHost (AddHost NewAggregator example_host1) example_host2))
                ''openssl|1.1.1|'' = Some p' \<and> PackageEntry.Score p \<le> PackageEntry.Score p'))
   \<and> (\<exists>b. map_of (bulletins (AddHost NewAggregator example_host1)) ''USN-1'' = Some b \<and>
        BulletinEntry.Score b = 5 \<and>
        (\<exists>b'. map_of (bulletins (AddHost (AddHost NewAggregator example_host1) example_host2))
                ''USN-1'' = Some b' \<and> BulletinEntry.Score b \<le> BulletinEntry.Score b'))
   \<and> pkg_findings ''openssl|1.1.1|'' [example_host1, example_host2] = [5, 9]
   \<and> bulletin_findings ''USN-1'' [example_host1, example_host2] = [5, 9]
   \<and> (\<exists>p. map_of (packages (AddHosts NewAggregator [example_host1, example_host2]))
               ''openssl|1.1.1|'' = Some p \<and> PackageEntry.Score p = 9)
   \<and> (\<exists>b. map_of (bulletins (AddHosts NewAggregator [example_host1, example_host2]))
               ''USN-1'' = Some b \<and> BulletinEntry.Score b = 9)"
proof -
  let ?a = "AddHost NewAggregator example_host1"
  let ?es = "[example_host1, example_host2]"
  note C = AddHost_score_monotone_max [of ?a "''openssl|1.1.1|''" example_host2 ?es]
  note D = AddHost_score_monotone_max [of ?a "''USN-1''" example_host2 ?es]
  have p1: "\<exists>p. map_of (packages ?a) ''openssl|1.1.1|'' = Some p \<and> PackageEntry.Score p = 5"
    by (simp add: AddHost_def NewAggregator_def example_host1_def
          addPackage_def pkg_key_def appendUniqueSlice_def Let_def)
  have b1: "\<exists>b. map_of (bulletins ?a) ''USN-1'' = Some b \<and> BulletinEntry.Score b = 5"
    by (simp add: AddHost_def NewAggregator_def example_host1_def
          addBulletin_def appendUniqueSlice_def Let_def)
  have pf: "pkg_findings ''openssl|1.1.1|'' ?es = [5, 9]"
    by (simp add: pkg_findings_def example_host1_def example_host2_def pkg_key_def)
  have bf: "bulletin_findings ''USN-1'' ?es = [5, 9]"
    by (simp add: bulletin_findings_def example_host1_def example_host2_def)
  from p1 C have c1: "\<exists>p. map_of (packages ?a) ''openssl|1.1.1|'' = Some p \<and> PackageEntry.Score p = 5 \<and>
        (\<exists>p'. map_of (packages (AddHost ?a example_host2)) ''openssl|1.1.1|'' = Some p' \<and>
               PackageEntry.Score p \<le> PackageEntry.Score p')"
    by blast
  from b1 D have c2: "\<exists>b. map_of (bulletins ?a) ''USN-1'' = Some b \<and> BulletinEntry.Score b = 5 \<and>
        (\<exists>b'. map_of (bulletins (AddHost ?a example_host2)) ''USN-1'' = Some b' \<and>
               BulletinEntry.Score b \<le> BulletinEntry.Score b')"
    by blast
  from C pf have c3: "\<exists>p. map_of (packages (AddHosts NewAggregator ?es)) ''openssl|1.1.1|'' = Some p \<and>
       PackageEntry.Score p = 9"
    by fastforce
  from D bf have c4: "\<exists>b. map_of (bulletins (AddHosts NewAggregator ?es)) ''USN-1'' = Some b \<and>
       BulletinEntry.Score b = 9"
    by fastforce
  from c1 c2 pf bf c3 c4 show ?thesis by blast
qed

section \<open>Affected-host lists\<close>

lemma appendUnique_eq: "appendUnique slice v = (if v \<in> set slice then slice else slice @ [v])"
  by (induction slice) auto

lemma first_occurrences_Nil: "first_occurrences [] = []"
  by (simp add: first_occurrences_def)

lemma remdups_snoc: "remdups (ys @ [x]) = filter (\<lambda>y. y \<noteq> x) (remdups ys) @ [x]"
  by (induction ys) auto

lemma first_occurrences_Cons:
  "first_occurrences (x # xs) = x # first_occurrences (filter (\<lambda>y. y \<noteq> x) xs)"
  by (simp add: first_occurrences_def remdups_snoc rev_filter remdups_filter)

lemma first_occurrences_snoc:
  "first_occurrences (xs @ [v]) = appendUnique (first_occurrences xs) v"
  by (simp add: first_occurrences_def appendUnique_eq)

lemma distinct_first_occurrences: "distinct (first_occurrences xs)"
  by (simp add: first_occurrences_def)

lemma set_first_occurrences: "set (first_occurrences xs) = set xs"
  by (simp add: first_occurrences_def)

lemma foldl_appendUnique:
  "foldl appendUnique (first_occurrences xs) ys = first_occurrences (xs @ ys)"
proof (induction ys arbitrary: xs)
  case Nil
  show ?case by simp
next
  case (Cons y ys)
  have "foldl appendUnique (first_occurrences xs) (y # ys)
          = foldl appendUnique (first_occurrences (xs @ [y])) ys"
    by (simp add: first_occurrences_snoc)
  then show ?case by (simp add: Cons.IH)
qed

lemma pkg_hosts_addPackage:
  "pkg_field PackageEntry.AffectedHosts (addPackage entry m pkg) k =
     (if k = pkg_key pkg then appendUnique (pkg_field PackageEntry.AffectedHosts m k) (HostID entry)
      else pkg_field PackageEntry.AffectedHosts m k)"
  by (auto simp: pkg_field_def addPackage_def Let_def update_conv' split: option.splits)

lemma pkg_names_addPackage:
  "pkg_field PackageEntry.AffectedHostNames (addPackage entry m pkg) k =
     (if k = pkg_key pkg then appendUnique (pkg_field PackageEntry.AffectedHostNames m k) (HostEntry.Name entry)
      else pkg_field PackageEntry.AffectedHostNames m k)"
  by (auto simp: pkg_field_def addPackage_def Let_def update_conv' split: option.splits)

lemma bulletin_hosts_addBulletin:
  "bulletin_field BulletinEntry.AffectedHosts (addBulletin entry m b) k =
     (if k = BulletinSummary.ID b then appendUnique (bulletin_field BulletinEntry.AffectedHosts m k) (HostID entry)
      else bulletin_field BulletinEntry.AffectedHosts m k)"
  by (auto simp: bulletin_field_def addBulletin_def Let_def update_conv' split: option.splits)

lemma bulletin_names_addBulletin:
  "bulletin_field BulletinEntry.AffectedHostNames (addBulletin entry m b) k =
     (if k = BulletinSummary.ID b then appendUnique (bulletin_field BulletinEntry.AffectedHostNames m k) (HostEntry.Name entry)
      else bulletin_field BulletinEntry.AffectedHostNames m k)"
  by (auto simp: bulletin_field_def addBulletin_def Let_def update_conv' split: option.splits)

text \<open>A loop whose step appends one fixed value to the tracked field at the matching
  key folds \<open>appendUnique\<close> over one copy of the value per matching element.\<close>

lemma foldl_field_step:
  assumes step: "\<And>m x. fld (stp m x) = (if key x = k then appendUnique (fld m) v else fld m)"
  shows "fld (foldl stp m xs) = foldl appendUnique (fld m) (map (\<lambda>x. v) (filter (\<lambda>x. key x = k) xs))"
  by (induction xs arbitrary: m) (simp_all add: step)

lemma pkg_hosts_AddHost:
  "pkg_field PackageEntry.AffectedHosts (packages (AddHost a e)) k =
     foldl appendUnique (pkg_field PackageEntry.AffectedHosts (packages a) k) (pkg_inserted HostID k [e])"
  unfolding packages_AddHost pkg_inserted_def
  using foldl_field_step [where fld = "\<lambda>m. pkg_field PackageEntry.AffectedHosts m k"
      and stp = "addPackage e" and key = pkg_key and k = k and v = "HostID e"]
  by (simp add: pkg_hosts_addPackage)


lemma pkg_names_AddHost:
  "pkg_field PackageEntry.AffectedHostNames (packages (AddHost a e)) k =
     foldl appendUnique (pkg_field PackageEntry.AffectedHostNames (packages a) k)
       (pkg_inserted HostEntry.Name k [e])"
  unfolding packages_AddHost pkg_inserted_def
  using foldl_field_step [where fld = "\<lambda>m. pkg_field PackageEntry.AffectedHostNames m k"
      and stp = "addPackage e" and key = pkg_key and k = k and v = "HostEntry.Name e"]
  by (simp add: pkg_names_addPackage)

lemma bulletin_hosts_AddHost:
  "bulletin_field BulletinEntry.AffectedHosts (bulletins (AddHost a e)) k =
     foldl appendUnique (bulletin_field BulletinEntry.AffectedHosts (bulletins a) k)
       (bulletin_inserted HostID k [e])"
  unfolding bulletins_AddHost bulletin_inserted_def
  using foldl_field_step [where fld = "\<lambda>m. bulletin_field BulletinEntry.AffectedHosts m k"
      and stp = "addBulletin e" and key = BulletinSummary.ID and k = k and v = "HostID e"]
  by (simp add: bulletin_hosts_addBulletin)

lemma bulletin_names_AddHost:
  "bulletin_field BulletinEntry.AffectedHostNames (bulletins (AddHost a e)) k =
     foldl appendUnique (bulletin_field BulletinEntry.AffectedHostNames (bulletins a) k)
       (bulletin_inserted HostEntry.Name k [e])"
  unfolding bulletins_AddHost bulletin_inserted_def
  using foldl_field_step [where fld = "\<lambda>m. bulletin_field BulletinEntry.AffectedHostNames m k"
      and stp = "addBulletin e" and key = BulletinSummary.ID and k = k and v = "HostEntry.Name e"]
  by (simp add: bulletin_names_addBulletin)

lemma AddHosts_field:
  assumes step: "\<And>a e. fld (AddHost a e) = foldl appendUnique (fld a) (ins [e])"
    and split: "\<And>e es. ins (e # es) = ins [e] @ ins es"
    and nil: "ins [] = []"
  shows "fld (AddHosts a es) = foldl appendUnique (fld a) (ins es)"
proof (induction es arbitrary: a)
  case Nil
  show ?case by (simp add: AddHosts_Nil nil)
next
  case (Cons e es)
  have "fld (AddHosts a (e # es)) = foldl appendUnique (fld (AddHost a e)) (ins es)"
    by (simp add: AddHosts_Cons Cons.IH)
  also have "\<dots> = foldl appendUnique (fld a) (ins [e] @ ins es)"
    by (simp add: step)
  finally show ?case by (simp add: split [of e es])
qed

lemma fresh_field:
  assumes step: "\<And>a e. fld (AddHost a e) = foldl appendUnique (fld a) (ins [e])"
    and split: "\<And>e es. ins (e # es) = ins [e] @ ins es"
    and nil: "ins [] = []"
    and fresh: "fld NewAggregator = []"
  shows "fld (AddHosts NewAggregator es) = first_occurrences (ins es)"
proof -
  have "fld (AddHosts NewAggregator es) = foldl appendUnique (first_occurrences []) (ins es)"
    by (simp add: AddHosts_field [of fld ins, OF step split nil] fresh first_occurrences_Nil)
  then show ?thesis by (simp add: foldl_appendUnique)
qed

lemma pkg_hosts_fresh:
  "pkg_field PackageEntry.AffectedHosts (packages (AddHosts NewAggregator es)) k =
     first_occurrences (pkg_inserted HostID k es)"
proof (rule fresh_field [where fld = "\<lambda>a. pkg_field PackageEntry.AffectedHosts (packages a) k" and ins = "pkg_inserted HostID k"])
  show "pkg_field PackageEntry.AffectedHosts (packages (AddHost a e)) k = foldl appendUnique (pkg_field PackageEntry.AffectedHosts (packages a) k) (pkg_inserted HostID k [e])" for a e
    by (rule pkg_hosts_AddHost)
  show "pkg_inserted HostID k (e # es) = pkg_inserted HostID k [e] @ pkg_inserted HostID k es" for e es
    by (simp add: pkg_inserted_def)
  show "pkg_inserted HostID k [] = []"
    by (simp add: pkg_inserted_def)
  show "pkg_field PackageEntry.AffectedHosts (packages NewAggregator) k = []"
    by (simp add: pkg_field_def NewAggregator_def)
qed

lemma pkg_names_fresh:
  "pkg_field PackageEntry.AffectedHostNames (packages (AddHosts NewAggregator es)) k =
     first_occurrences (pkg_inserted HostEntry.Name k es)"
proof (rule fresh_field [where fld = "\<lambda>a. pkg_field PackageEntry.AffectedHostNames (packages a) k" and ins = "pkg_inserted HostEntry.Name k"])
  show "pkg_field PackageEntry.AffectedHostNames (packages (AddHost a e)) k = foldl appendUnique (pkg_field PackageEntry.AffectedHostNames (packages a) k) (pkg_inserted HostEntry.Name k [e])" for a e
    by (rule pkg_names_AddHost)
  show "pkg_inserted HostEntry.Name k (e # es) = pkg_inserted HostEntry.Name k [e] @ pkg_inserted HostEntry.Name k es" for e es
    by (simp add: pkg_inserted_def)
  show "pkg_inserted HostEntry.Name k [] = []"
    by (simp add: pkg_inserted_def)
  show "pkg_field PackageEntry.AffectedHostNames (packages NewAggregator) k = []"
    by (simp add: pkg_field_def NewAggregator_def)
qed

lemma bulletin_hosts_fresh:
  "bulletin_field BulletinEntry.AffectedHosts (bulletins (AddHosts NewAggregator es)) k =
     first_occurrences (bulletin_inserted HostID k es)"
proof (rule fresh_field [where fld = "\<lambda>a. bulletin_field BulletinEntry.AffectedHosts (bulletins a) k" and ins = "bulletin_inserted HostID k"])
  show "bulletin_field BulletinEntry.AffectedHosts (bulletins (AddHost a e)) k = foldl appendUnique (bulletin_field BulletinEntry.AffectedHosts (bulletins a) k) (bulletin_inserted HostID k [e])" for a e
    by (rule bulletin_hosts_AddHost)
  show "bulletin_inserted HostID k (e # es) = bulletin_inserted HostID k [e] @ bulletin_inserted HostID k es" for e es
    by (simp add: bulletin_inserted_def)
  show "bulletin_inserted HostID k [] = []"
    by (simp add: bulletin_inserted_def)
  show "bulletin_field BulletinEntry.AffectedHosts (bulletins NewAggregator) k = []"
    by (simp add: bulletin_field_def NewAggregator_def)
qed

lemma bulletin_names_fresh:
  "bulletin_field BulletinEntry.AffectedHostNames (bulletins (AddHosts NewAggregator es)) k =
     first_occurrences (bulletin_inserted HostEntry.Name k es)"
proof (rule fresh_field [where fld = "\<lambda>a. bulletin_field BulletinEntry.AffectedHostNames (bulletins a) k" and ins = "bulletin_inserted HostEntry.Name k"])
  show "bulletin_field BulletinEntry.AffectedHostNames (bulletins (AddHost a e)) k = foldl appendUnique (bulletin_field BulletinEntry.AffectedHostNames (bulletins a) k) (bulletin_inserted HostEntry.Name k [e])" for a e
    by (rule bulletin_names_AddHost)
  show "bulletin_inserted HostEntry.Name k (e # es) = bulletin_inserted HostEntry.Name k [e] @ bulletin_inserted HostEntry.Name k es" for e es
    by (simp add: bulletin_inserted_def)
  show "bulletin_inserted HostEntry.Name k [] = []"
    by (simp add: bulletin_inserted_def)
  show "bulletin_field BulletinEntry.AffectedHostNames (bulletins NewAggregator) k = []"
    by (simp add: bulletin_field_def NewAggregator_def)
qed

lemma pkg_field_Some: "map_of m k = Some p \<Longrightarrow> pkg_field sel m k = sel p"
  by (simp add: pkg_field_def)

lemma bulletin_field_Some: "map_of m k = Some b \<Longrightarrow> bulletin_field sel m k = sel b"
  by (simp add: bulletin_field_def)

text \<open>
  Claim C2. After any sequence of \<open>AddHost\<close> calls on a fresh aggregator, the
  affected-host ids and the affected-host names of every package aggregate and of every
  bulletin aggregate hold no element twice, and are exactly the values inserted for that
  key, each at the position of its first insertion. Inserting a value that is already
  present returns the list unchanged; a new value goes to the end.
\<close>

theorem AddHost_affected_sets_dedup:
  "(\<forall>p. map_of (packages (AddHosts NewAggregator es)) k = Some p \<longrightarrow>
        distinct (PackageEntry.AffectedHosts p) \<and>
        PackageEntry.AffectedHosts p = first_occurrences (pkg_inserted HostID k es) \<and>
        distinct (PackageEntry.AffectedHostNames p) \<and>
        PackageEntry.AffectedHostNames p = first_occurrences (pkg_inserted HostEntry.Name k es))
   \<and> (\<forall>b. map_of (bulletins (AddHosts NewAggregator es)) k = Some b \<longrightarrow>
        distinct (BulletinEntry.AffectedHosts b) \<and>
        BulletinEntry.AffectedHosts b = first_occurrences (bulletin_inserted HostID k es) \<and>
        distinct (BulletinEntry.AffectedHostNames b) \<and>
        BulletinEntry.AffectedHostNames b = first_occurrences (bulletin_inserted HostEntry.Name k es))
   \<and> (v \<in> set slice \<longrightarrow> appendUnique slice v = slice)
   \<and> (v \<notin> set slice \<longrightarrow> appendUnique slice v = slice @ [v])"
proof -
  have P: "PackageEntry.AffectedHosts p = first_occurrences (pkg_inserted HostID k es) \<and>
           PackageEntry.AffectedHostNames p = first_occurrences (pkg_inserted HostEntry.Name k es)"
    if "map_of (packages (AddHosts NewAggregator es)) k = Some p" for p
    using pkg_hosts_fresh [of es k] pkg_names_fresh [of es k] pkg_field_Some [OF that]
    by simp
  have B: "BulletinEntry.AffectedHosts b = first_occurrences (bulletin_inserted HostID k es) \<and>
           BulletinEntry.AffectedHostNames b = first_occurrences (bulletin_inserted HostEntry.Name k es)"
    if "map_of (bulletins (AddHosts NewAggregator es)) k = Some b" for b
    using bulletin_hosts_fresh [of es k] bulletin_names_fresh [of es k] bulletin_field_Some [OF that]
    by simp
  show ?thesis
    using P B by (simp add: distinct_first_occurrences appendUnique_eq)
qed

theorem AddHost_affected_sets_dedup_witness:
  "(\<exists>p. map_of (packages (AddHosts NewAggregator [example_host1, example_host2, example_host1]))
            ''openssl|1.1.1|'' = Some p \<and>
        PackageEntry.AffectedHosts p = [''1'', ''2''] \<and>
        PackageEntry.AffectedHostNames p = [''Web Server 1'', ''DB Server''])
   \<and> (\<exists>b. map_of (bulletins (AddHosts NewAggregator [example_host1, example_host2, example_host1]))
            ''USN-1'' = Some b \<and>
        BulletinEntry.AffectedHosts b = [''1'', ''2''] \<and>
        BulletinEntry.AffectedHostNames b = [''Web Server 1'', ''DB Server''])
   \<and> appendUnique [''1'', ''2''] ''1'' = [''1'', ''2'']
   \<and> appendUnique [''1''] ''2'' = [''1'', ''2'']"
proof -
  let ?es = "[example_host1, example_host2, example_host1]"
  note C = AddHost_affected_sets_dedup [of ?es "''openssl|1.1.1|''" "''1''" "[''1'', ''2'']"]
  note D = AddHost_affected_sets_dedup [of ?es "''USN-1''" "''2''" "[''1'']"]
  have p: "\<exists>p. map_of (packages (AddHosts NewAggregator ?es)) ''openssl|1.1.1|'' = Some p"
    by (simp add: AddHosts_def AddHost_def NewAggregator_def example_host1_def example_host2_def
          addPackage_def pkg_key_def Let_def)
  have b: "\<exists>b. map_of (bulletins (AddHosts NewAggregator ?es)) ''USN-1'' = Some b"
    by (simp add: AddHosts_def AddHost_def NewAggregator_def example_host1_def example_host2_def
          addBulletin_def Let_def)
  have i1: "first_occurrences (pkg_inserted HostID ''openssl|1.1.1|'' ?es) = [''1'', ''2'']"
    by (simp add: first_occurrences_def pkg_inserted_def pkg_key_def example_host1_def example_host2_def)
  have i2: "first_occurrences (pkg_inserted HostEntry.Name ''openssl|1.1.1|'' ?es)
              = [''Web Server 1'', ''DB Server'']"
    by (simp add: first_occurrences_def pkg_inserted_def pkg_key_def example_host1_def example_host2_def)
  have i3: "first_occurrences (bulletin_inserted HostID ''USN-1'' ?es) = [''1'', ''2'']"
    by (simp add: first_occurrences_def bulletin_inserted_def example_host1_def example_host2_def)
  have i4: "first_occurrences (bulletin_inserted HostEntry.Name ''USN-1'' ?es)
              = [''Web Server 1'', ''DB Server'']"
    by (simp add: first_occurrences_def bulletin_inserted_def example_host1_def example_host2_def)
  have m1: "''1'' \<in> set [''1'', ''2'']" by simp
  have m2: "''2'' \<notin> set [''1'']" by simp
  from C p i1 i2 have c1: "\<exists>p. map_of (packages (AddHosts NewAggregator ?es)) ''openssl|1.1.1|'' = Some p \<and>
        PackageEntry.AffectedHosts p = [''1'', ''2''] \<and>
        PackageEntry.AffectedHostNames p = [''Web Server 1'', ''DB Server'']"
    by metis
  from D b i3 i4 have c2: "\<exists>b. map_of (bulletins (AddHosts NewAggregator ?es)) ''USN-1'' = Some b \<and>
        BulletinEntry.AffectedHosts b = [''1'', ''2''] \<and>
        BulletinEntry.AffectedHostNames b = [''Web Server 1'', ''DB Server'']"
    by metis
  from C m1 have c3: "appendUnique [''1'', ''2''] ''1'' = [''1'', ''2'']" by blast
  from D m2 have c4: "appendUnique [''1''] ''2'' = [''1''] @ [''2'']" by blast
  from c1 c2 c3 c4 show ?thesis by simp
qed

section \<open>Sorted results\<close>

lemma set_insert_less: "set (insert_less lt x xs) = insert x (set xs)"
  by (induction xs) auto

lemma mset_insert_less: "mset (insert_less lt x xs) = add_mset x (mset xs)"
  by (induction xs) auto

lemma mset_sort_Slice: "mset (sort_Slice lt xs) = mset xs"
  by (induction xs) (simp_all add: sort_Slice_def mset_insert_less)

lemma sorted_insert_less_score:
  fixes f :: "'a \<Rightarrow> real"
  assumes "sorted_wrt (\<lambda>x y. f x \<ge> f y) xs"
  shows "sorted_wrt (\<lambda>x y. f x \<ge> f y) (insert_less (\<lambda>x y. f x > f y) v xs)"
  using assms
  by (induction xs) (auto simp: set_insert_less)

lemma sorted_sort_Slice_score:
  fixes f :: "'a \<Rightarrow> real"
  shows "sorted_wrt (\<lambda>x y. f x \<ge> f y) (sort_Slice (\<lambda>x y. f x > f y) xs)"
proof (induction xs)
  case Nil
  show ?case by (simp add: sort_Slice_def)
next
  case (Cons x xs)
  then show ?case
    using sorted_insert_less_score [of f "sort_Slice (\<lambda>x y. f x > f y) xs" x]
    by (simp add: sort_Slice_def)
qed

text \<open>
  Claim C8. For every aggregator state, the packages and the bulletins returned by
  \<open>GetResults\<close> are sorted by non-increasing score, and they are the aggregates of the
  two maps, each exactly once. The sortedness of \<open>sort_Slice\<close> holds for every input
  list, hence for every order in which the map is traversed.
\<close>

theorem GetResults_sorted_descending:
  "sorted_wrt (\<lambda>x y. PackageEntry.Score x \<ge> PackageEntry.Score y) (ScanResults.Packages (GetResults a))
   \<and> sorted_wrt (\<lambda>x y. BulletinEntry.Score x \<ge> BulletinEntry.Score y) (ScanResults.Bulletins (GetResults a))
   \<and> mset (ScanResults.Packages (GetResults a)) = mset (map snd (packages a))
   \<and> mset (ScanResults.Bulletins (GetResults a)) = mset (map snd (bulletins a))"
  by (simp add: GetResults_def Let_def split_beta sorted_sort_Slice_score mset_sort_Slice)

section \<open>Statistics\<close>

lemma index_Inr: "0 \<le> i \<Longrightarrow> i < int (length xs) \<Longrightarrow> index xs i = Inr (xs ! nat i)"
  by (simp add: index_def)

lemma clamped_truncation: 
  "(let bucket = truncation x;
        bucket = (if bucket > 10 then 10 else bucket);
        bucket = (if bucket < 0 then 0 else bucket)
    in bucket) = floor_clamped x"
proof (cases "x < 0")
  case True
  obtain c where c: "\<lceil>x\<rceil> = c" "c \<le> 0"
    using True by (simp add: ceiling_le_zero)
  obtain f where f: "\<lfloor>x\<rfloor> = f" "f < 0"
    using True by simp
  have "(let bucket = truncation x;
             bucket = (if bucket > 10 then 10 else bucket);
             bucket = (if bucket < 0 then 0 else bucket)
         in bucket) = 0"
    using True c by (simp add: truncation_def Let_def)
  moreover have "floor_clamped x = 0"
    using f by (simp add: floor_clamped_def)
  ultimately show ?thesis by simp
next
  case False
  then have "0 \<le> \<lfloor>x\<rfloor>" by simp
  then show ?thesis
    using False by (auto simp: floor_clamped_def truncation_def Let_def)
qed

lemma histogram_bucket_representable:
  assumes "representable pf (truncation x)"
  shows "histogram_bucket pf x = floor_clamped x"
  using assms clamped_truncation [of x]
  by (simp add: histogram_bucket_def float_to_int_def)

lemma histogram_bucket_range: "0 \<le> histogram_bucket pf x \<and> histogram_bucket pf x \<le> 10"
  by (simp add: histogram_bucket_def Let_def)

lemma nat_histogram_bucket_less: "nat (histogram_bucket pf x) < 11"
  using histogram_bucket_range [of pf x] by linarith

lemma floor_clamped_range: "0 \<le> floor_clamped x \<and> floor_clamped x \<le> 10"
  by (simp add: floor_clamped_def)

lemma stats_host_step_Inr:
  assumes "length (Histogram st) = 11"
  shows "stats_host_step pf (st, t, sc) h =
           Inr (st\<lparr>VulnerableHosts := VulnerableHosts st + (if HostEntry.Score h > 0 then 1 else 0),
                   Statistics.MaxCVSS := max (Statistics.MaxCVSS st) (HostEntry.Score h),
                   Histogram := (Histogram st)[nat (histogram_bucket pf (HostEntry.Score h)) :=
                                  Histogram st ! nat (histogram_bucket pf (HostEntry.Score h)) + 1]\<rparr>,
                fadd pf t (Finite (HostEntry.Score h)), sc @ [HostEntry.Score h])"
proof -
  let ?b = "histogram_bucket pf (HostEntry.Score h)"
  have "0 \<le> ?b" "?b < int (length (Histogram st))"
    using histogram_bucket_range [of pf "HostEntry.Score h"] assms by simp_all
  then have "index (Histogram st) ?b = Inr (Histogram st ! nat ?b)"
    by (rule index_Inr)
  then show ?thesis
    by (simp add: Let_def max_def)
qed

lemma Max_max_Cons: "Max (set (max t x # xs)) = Max (set (t # x # (xs::real list)))"
proof (cases "xs = []")
  case True
  then show ?thesis by (simp add: max.commute)
next
  case False
  then show ?thesis by (simp add: max.assoc)
qed

lemma sum_list_bump:
  fixes xs :: "nat list"
  assumes "k < length xs"
  shows "sum_list (xs[k := xs ! k + 1]) = sum_list xs + 1"
  using assms by (simp add: sum_list_update)

lemma stats_host_loop_Inr:
  assumes "length (Histogram st) = 11"
  shows "\<exists>st'. stats_host_loop pf (st, t, sc) hs =
                 Inr (st', foldl (fadd pf) t (map (\<lambda>h. Finite (HostEntry.Score h)) hs),
                      sc @ map HostEntry.Score hs)
     \<and> length (Histogram st') = 11
     \<and> VulnerableHosts st' = VulnerableHosts st + length (filter (\<lambda>h. HostEntry.Score h > 0) hs)
     \<and> Statistics.MaxCVSS st' = Max (set (Statistics.MaxCVSS st # map HostEntry.Score hs))
     \<and> (\<forall>b<11. Histogram st' ! b =
            Histogram st ! b
            + length (filter (\<lambda>h. nat (histogram_bucket pf (HostEntry.Score h)) = b) hs))
     \<and> sum_list (Histogram st') = sum_list (Histogram st) + length hs
     \<and> TotalHosts st' = TotalHosts st \<and> TotalPackages st' = TotalPackages st
     \<and> TotalBulletins st' = TotalBulletins st \<and> TotalCVEs st' = TotalCVEs st
     \<and> AvgCVSS st' = AvgCVSS st \<and> MinCVSS st' = MinCVSS st \<and> MedianCVSS st' = MedianCVSS st"
  using assms
proof (induction hs arbitrary: st t sc)
  case Nil
  then show ?case by simp
next
  case (Cons h hs)
  let ?k = "nat (histogram_bucket pf (HostEntry.Score h))"
  let ?t1 = "fadd pf t (Finite (HostEntry.Score h))"
  let ?st1 = "st\<lparr>VulnerableHosts := VulnerableHosts st + (if HostEntry.Score h > 0 then 1 else 0),
                   Statistics.MaxCVSS := max (Statistics.MaxCVSS st) (HostEntry.Score h),
                   Histogram := (Histogram st)[?k := Histogram st ! ?k + 1]\<rparr>"
  have k: "?k < length (Histogram st)"
    using nat_histogram_bucket_less [of pf "HostEntry.Score h"] Cons.prems by simp
  have step: "stats_host_step pf (st, t, sc) h = Inr (?st1, ?t1, sc @ [HostEntry.Score h])"
    using Cons.prems by (rule stats_host_step_Inr)
  have len1: "length (Histogram ?st1) = 11"
    using Cons.prems by simp
  obtain st' where
    run: "stats_host_loop pf (?st1, ?t1, sc @ [HostEntry.Score h]) hs =
            Inr (st', foldl (fadd pf) ?t1 (map (\<lambda>h. Finite (HostEntry.Score h)) hs),
                 (sc @ [HostEntry.Score h]) @ map HostEntry.Score hs)"
    and len: "length (Histogram st') = 11"
    and vuln: "VulnerableHosts st' =
                 VulnerableHosts ?st1 + length (filter (\<lambda>h. HostEntry.Score h > 0) hs)"
    and mx: "Statistics.MaxCVSS st' = Max (set (Statistics.MaxCVSS ?st1 # map HostEntry.Score hs))"
    and hist: "\<forall>b<11. Histogram st' ! b =
                 Histogram ?st1 ! b
                 + length (filter (\<lambda>h. nat (histogram_bucket pf (HostEntry.Score h)) = b) hs)"
    and total: "sum_list (Histogram st') = sum_list (Histogram ?st1) + length hs"
    and rest: "TotalHosts st' = TotalHosts ?st1" "TotalPackages st' = TotalPackages ?st1"
              "TotalBulletins st' = TotalBulletins ?st1" "TotalCVEs st' = TotalCVEs ?st1"
              "AvgCVSS st' = AvgCVSS ?st1" "MinCVSS st' = MinCVSS ?st1"
              "MedianCVSS st' = MedianCVSS ?st1"
    using Cons.IH [OF len1, of ?t1 "sc @ [HostEntry.Score h]"] by blast
  have 1: "stats_host_loop pf (st, t, sc) (h # hs) =
             Inr (st', foldl (fadd pf) t (map (\<lambda>h. Finite (HostEntry.Score h)) (h # hs)),
                  sc @ map HostEntry.Score (h # hs))"
    using step run by simp
  have 2: "VulnerableHosts st' =
             VulnerableHosts st + length (filter (\<lambda>h. HostEntry.Score h > 0) (h # hs))"
    using vuln by simp
  have 3: "Statistics.MaxCVSS st' = Max (set (Statistics.MaxCVSS st # map HostEntry.Score (h # hs)))"
    using mx Max_max_Cons [of "Statistics.MaxCVSS st" "HostEntry.Score h" "map HostEntry.Score hs"]
    by simp
  have 4: "\<forall>b<11. Histogram st' ! b =
             Histogram st ! b
             + length (filter (\<lambda>h. nat (histogram_bucket pf (HostEntry.Score h)) = b) (h # hs))"
  proof (intro allI impI)
    fix b :: nat
    assume b: "b < 11"
    have "Histogram ?st1 ! b = Histogram st ! b + (if ?k = b then 1 else 0)"
      using k b Cons.prems by (simp add: nth_list_update)
    then show "Histogram st' ! b =
             Histogram st ! b
             + length (filter (\<lambda>h. nat (histogram_bucket pf (HostEntry.Score h)) = b) (h # hs))"
      using hist b by simp
  qed
  have 5: "sum_list (Histogram st') = sum_list (Histogram st) + length (h # hs)"
    using total sum_list_bump [OF k] by simp
  show ?case
    using 1 2 3 4 5 len rest by simp
qed

lemma sort_nth0_Min:
  fixes xs :: "real list"
  assumes "xs \<noteq> []"
  shows "sort xs ! 0 = Min (set xs)"
proof -
  obtain y ys where ys: "sort xs = y # ys"
    using assms by (cases "sort xs") (auto dest: arg_cong [where f = length])
  have "sorted (y # ys)" and set: "set (y # ys) = set xs"
    using ys [symmetric] by simp_all
  then have "\<forall>z\<in>set xs. y \<le> z" and "y \<in> set xs"
    by auto
  then have "Min (set xs) = y"
    by (intro Min_eqI) auto
  then show ?thesis by (simp add: ys)
qed

lemma median_of_Inr:
  assumes "xs \<noteq> []"
  shows "median_of pf xs =
           Inr (if even (length xs)
                then fdivide pf (fadd pf (Finite (xs ! (length xs div 2 - 1)))
                                         (Finite (xs ! (length xs div 2)))) (Finite 2)
                else Finite (xs ! (length xs div 2)))"
proof (cases "even (length xs)")
  case True
  then have ev: "int (length xs) mod 2 = 0"
    by presburger
  have "0 < length xs" using assms by simp
  then have n2: "2 \<le> length xs"
    using True by presburger
  have lo: "index xs (int (length xs) div 2 - 1) = Inr (xs ! (length xs div 2 - 1))"
  proof -
    have "0 \<le> int (length xs) div 2 - 1" "int (length xs) div 2 - 1 < int (length xs)"
      using n2 by linarith+
    moreover have "nat (int (length xs) div 2 - 1) = length xs div 2 - 1"
      using n2 by linarith
    ultimately show ?thesis by (simp add: index_def)
  qed
  have hi: "index xs (int (length xs) div 2) = Inr (xs ! (length xs div 2))"
  proof -
    have "0 \<le> int (length xs) div 2" "int (length xs) div 2 < int (length xs)"
      using n2 by linarith+
    moreover have "nat (int (length xs) div 2) = length xs div 2"
      by linarith
    ultimately show ?thesis by (simp add: index_def)
  qed
  show ?thesis
    using True ev lo hi by (simp add: median_of_def Let_def)
next
  case False
  then have od: "int (length xs) mod 2 \<noteq> 0"
    by presburger
  have hi: "index xs (int (length xs) div 2) = Inr (xs ! (length xs div 2))"
  proof -
    have "0 < length xs" using assms by simp
    then have "0 \<le> int (length xs) div 2" "int (length xs) div 2 < int (length xs)"
      by linarith+
    moreover have "nat (int (length xs) div 2) = length xs div 2"
      by linarith
    ultimately show ?thesis by (simp add: index_def)
  qed
  show ?thesis
    using False od hi by (simp add: median_of_def Let_def)
qed

lemma GetStatistics_Inr:
  "\<exists>st. GetStatistics pf a = Inr st
     \<and> TotalHosts st = length (hosts a)
     \<and> length (Histogram st) = 11
     \<and> sum_list (Histogram st) = length (hosts a)
     \<and> (\<forall>b<11. Histogram st ! b =
            length (filter (\<lambda>h. nat (histogram_bucket pf (HostEntry.Score h)) = b) (hosts a)))
     \<and> VulnerableHosts st = length (filter (\<lambda>h. HostEntry.Score h > 0) (hosts a))
     \<and> Statistics.MaxCVSS st = Max (set (0 # host_scores a))
     \<and> (hosts a = [] \<longrightarrow> AvgCVSS st = Finite 0 \<and> MinCVSS st = 0 \<and> MedianCVSS st = Finite 0)
     \<and> (hosts a \<noteq> [] \<longrightarrow>
          AvgCVSS st = fdivide pf (foldl (fadd pf) (Finite 0) (map Finite (host_scores a)))
                                  (Finite (real (length (hosts a))))
          \<and> MinCVSS st = Min (set (host_scores a))
          \<and> MedianCVSS st =
               (if even (length (hosts a))
                then fdivide pf (fadd pf (Finite (sort (host_scores a) ! (length (hosts a) div 2 - 1)))
                                         (Finite (sort (host_scores a) ! (length (hosts a) div 2))))
                                (Finite 2)
                else Finite (sort (host_scores a) ! (length (hosts a) div 2))))"
proof -
  let ?st0 = "\<lparr>TotalHosts = length (hosts a), VulnerableHosts = 0,
               TotalPackages = length (packages a), TotalBulletins = length (bulletins a),
               TotalCVEs = 0, MaxCVSS = 0, AvgCVSS = Finite 0, MinCVSS = 0,
               MedianCVSS = Finite 0, Histogram = replicate 11 0\<rparr>"
  let ?sc = "host_scores a"
  let ?sum = "foldl (fadd pf) (Finite 0) (map Finite ?sc)"
  have len0: "length (Histogram ?st0) = 11" by simp
  have fin: "map (\<lambda>h. Finite (HostEntry.Score h)) (hosts a) = map Finite ?sc"
    by (simp add: host_scores_def)
  obtain st1 where
    run: "stats_host_loop pf (?st0, Finite 0, []) (hosts a) = Inr (st1, ?sum, ?sc)"
    and len: "length (Histogram st1) = 11"
    and vuln: "VulnerableHosts st1 = length (filter (\<lambda>h. HostEntry.Score h > 0) (hosts a))"
    and mx: "Statistics.MaxCVSS st1 = Max (set (0 # ?sc))"
    and hist: "\<forall>b<11. Histogram st1 ! b =
                 length (filter (\<lambda>h. nat (histogram_bucket pf (HostEntry.Score h)) = b) (hosts a))"
    and total: "sum_list (Histogram st1) = length (hosts a)"
    and rest: "TotalHosts st1 = length (hosts a)"
              "AvgCVSS st1 = Finite 0" "MinCVSS st1 = 0" "MedianCVSS st1 = Finite 0"
    using stats_host_loop_Inr [OF len0, of pf "Finite 0" "[]" "hosts a"] unfolding fin
    by (auto simp: host_scores_def)
  let ?st2 = "st1\<lparr>TotalCVEs := length (cveSet (bulletins a))\<rparr>"
  show ?thesis
  proof (cases "hosts a = []")
    case True
    then have "GetStatistics pf a = Inr ?st2"
      using run by (simp add: GetStatistics_def host_scores_def)
    then show ?thesis
      using True len vuln mx hist total rest by simp
  next
    case False
    then have ne: "?sc \<noteq> []" "sort ?sc \<noteq> []"
      by (auto simp: host_scores_def dest: arg_cong [where f = length])
    have n: "length ?sc = length (hosts a)" "length (sort ?sc) = length (hosts a)"
      by (simp_all add: host_scores_def)
    let ?avg = "fdivide pf ?sum (Finite (real (length (hosts a))))"
    let ?med = "if even (length (hosts a))
                then fdivide pf (fadd pf (Finite (sort ?sc ! (length (hosts a) div 2 - 1)))
                                         (Finite (sort ?sc ! (length (hosts a) div 2)))) (Finite 2)
                else Finite (sort ?sc ! (length (hosts a) div 2))"
    have avg: "fdiv pf ?sum (Finite (real (length ?sc))) = Inr ?avg"
      using False by (simp add: fdiv_def host_scores_def)
    have low: "index (sort ?sc) 0 = Inr (Min (set ?sc))"
      using ne sort_nth0_Min [of ?sc] by (simp add: index_def)
    have med: "median_of pf (sort ?sc) = Inr ?med"
      using median_of_Inr [OF ne(2), of pf] by (simp only: n)
    let ?st3 = "?st2\<lparr>AvgCVSS := ?avg, MinCVSS := Min (set ?sc), MedianCVSS := ?med\<rparr>"
    have "GetStatistics pf a = Inr ?st3"
      unfolding GetStatistics_def Let_def run
      using ne(1) avg low med by (simp del: sort_key_simps)
    then show ?thesis
      using False len vuln mx hist total rest by simp
  qed
qed

lemma hosts_AddHosts: "hosts (AddHosts a es) = hosts a @ es"
  by (induction es arbitrary: a) (simp_all add: AddHosts_Nil AddHosts_Cons hosts_AddHost)

lemma hosts_fresh: "hosts (AddHosts NewAggregator es) = es"
  by (simp add: hosts_AddHosts NewAggregator_def)

lemma GetStatistics_never_fails: "\<exists>st. GetStatistics pf a = Inr st"
  using GetStatistics_Inr [of pf a] by blast

text \<open>
  Claim C9. On a fresh aggregator and on a reset one, \<open>GetStatistics\<close> returns a record
  whose minimum, median, average and maximum are 0 and whose eleven buckets are 0; and on
  every aggregator state it returns a record: no index access is out of range and no
  quotient is taken by a zero count. This holds on every platform.
\<close>

theorem GetStatistics_empty_zero:
  "GetStatistics pf NewAggregator = Inr zero_statistics
   \<and> GetStatistics pf (Reset a) = Inr zero_statistics
   \<and> (\<exists>st. GetStatistics pf a = Inr st)"
proof -
  have "GetStatistics pf NewAggregator = Inr zero_statistics"
    by (simp add: GetStatistics_def NewAggregator_def zero_statistics_def cveSet_def
          numeral_eq_Suc)
  moreover have "GetStatistics pf (Reset a) = Inr zero_statistics"
    by (simp add: GetStatistics_def Reset_def zero_statistics_def cveSet_def numeral_eq_Suc)
  ultimately show ?thesis
    using GetStatistics_never_fails [of pf a] by simp
qed

text \<open>
  Claim C3. After a non-empty sequence of hosts has been added to a fresh aggregator,
  \<open>GetStatistics\<close> returns a record whose minimum is the least score of all added hosts;
  whose average is the \<open>float64\<close> quotient, by their number, of the \<open>float64\<close> sum of all
  their scores taken in insertion order (hosts of score 0 included); whose vulnerable
  hosts are those of strictly positive score; and whose median is, for an even number of
  hosts, the mean of the two middle elements of the sorted scores, computed as their
  \<open>float64\<close> sum divided by 2, and for an odd number the middle element. This holds for
  the sum and quotient of every platform.
\<close>

theorem GetStatistics_over_all_hosts:
  assumes "es \<noteq> []"
  shows "\<exists>st. GetStatistics pf (AddHosts NewAggregator es) = Inr st
     \<and> MinCVSS st = Min (set (map HostEntry.Score es))
     \<and> AvgCVSS st = fdivide pf (foldl (fadd pf) (Finite 0) (map Finite (map HostEntry.Score es)))
                               (Finite (real (length es)))
     \<and> VulnerableHosts st = length (filter (\<lambda>h. HostEntry.Score h > 0) es)
     \<and> MedianCVSS st =
          (if even (length es)
           then fdivide pf (fadd pf (Finite (sort (map HostEntry.Score es) ! (length es div 2 - 1)))
                                    (Finite (sort (map HostEntry.Score es) ! (length es div 2))))
                           (Finite 2)
           else Finite (sort (map HostEntry.Score es) ! (length es div 2)))"
  using assms GetStatistics_Inr [of pf "AddHosts NewAggregator es"]
  by (auto simp: hosts_fresh host_scores_def)

theorem GetStatistics_over_all_hosts_witness:
  "[score_host ''1'' 0, score_host ''2'' 3, score_host ''3'' 9, score_host ''4'' 6] \<noteq> []
   \<and> (\<exists>st. GetStatistics (amd64 exact_add exact_div) (AddHosts NewAggregator
               [score_host ''1'' 0, score_host ''2'' 3, score_host ''3'' 9, score_host ''4'' 6]) = Inr st
        \<and> MinCVSS st = 0 \<and> AvgCVSS st = Finite (9 / 2) \<and> VulnerableHosts st = 3
        \<and> MedianCVSS st = Finite (9 / 2))"
proof -
  let ?es = "[score_host ''1'' 0, score_host ''2'' 3, score_host ''3'' 9, score_host ''4'' 6]"
  let ?pf = "amd64 exact_add exact_div"
  have ne: "?es \<noteq> []" by simp
  have sc: "map HostEntry.Score ?es = [0, 3, 9, 6]"
    by (simp add: score_host_def)
  have so: "sort [0, 3, 9, 6 :: real] = [0, 3, 6, 9]"
    by simp
  have ln: "length ?es = 4" "length ?es div 2 = 2" "length ?es div 2 - 1 = 1"
    by simp_all
  have ops: "fadd ?pf = exact_add" "fdivide ?pf = exact_div"
    by (simp_all add: amd64_def)
  obtain st where
    run: "GetStatistics ?pf (AddHosts NewAggregator ?es) = Inr st"
    and mn: "MinCVSS st = Min (set (map HostEntry.Score ?es))"
    and av: "AvgCVSS st = fdivide ?pf (foldl (fadd ?pf) (Finite 0) (map Finite (map HostEntry.Score ?es)))
                               (Finite (real (length ?es)))"
    and vu: "VulnerableHosts st = length (filter (\<lambda>h. HostEntry.Score h > 0) ?es)"
    and md: "MedianCVSS st =
          (if even (length ?es)
           then fdivide ?pf (fadd ?pf (Finite (sort (map HostEntry.Score ?es) ! (length ?es div 2 - 1)))
                                    (Finite (sort (map HostEntry.Score ?es) ! (length ?es div 2))))
                           (Finite 2)
           else Finite (sort (map HostEntry.Score ?es) ! (length ?es div 2)))"
    using GetStatistics_over_all_hosts [OF ne, of ?pf] by blast
  have 1: "MinCVSS st = 0"
    unfolding mn sc by simp
  have 2: "AvgCVSS st = Finite (9 / 2)"
    unfolding av sc ln ops by simp
  have 3: "VulnerableHosts st = 3"
    unfolding vu by (simp add: score_host_def)
  have "[0, 3, 6, 9 :: real] ! 1 = 3" "[0, 3, 6, 9 :: real] ! 2 = 6"
    by simp_all
  then have 4: "MedianCVSS st = Finite (9 / 2)"
    unfolding md sc so ln ops by simp
  show ?thesis
    using ne run 1 2 3 4 by blast
qed

lemma GetStatistics_histogram_sum:
  "\<exists>st. GetStatistics pf (AddHosts NewAggregator es) = Inr st
     \<and> TotalHosts st = length es
     \<and> length (Histogram st) = 11
     \<and> sum_list (Histogram st) = TotalHosts st
     \<and> (\<forall>b<11. Histogram st ! b =
            length (filter (\<lambda>h. histogram_bucket pf (HostEntry.Score h) = int b) es))"
proof -
  have eq: "(nat (histogram_bucket pf x) = b) = (histogram_bucket pf x = int b)" for x b
    using histogram_bucket_range [of pf x] by linarith
  show ?thesis
    using GetStatistics_Inr [of pf "AddHosts NewAggregator es"]
    by (auto simp: hosts_fresh eq)
qed

text \<open>
  Claim C4. On the amd64 port the code puts a host of score \<open>10^19\<close> into bucket 0: the
  integer part of the score does not fit \<open>int\<close>, the conversion yields the least \<open>int\<close>,
  and the clamp for negative buckets applies. The floor of that score clamped into
  \<open>[0, 10]\<close> is 10. (For every score whose integer part fits \<open>int\<close> the bucket is the
  clamped floor, lemma \<open>histogram_bucket_representable\<close>, and on every platform the
  eleven buckets sum to the number of hosts, lemma \<open>GetStatistics_histogram_sum\<close>.)
\<close>

theorem GetStatistics_histogram_unrepresentable_score:
  "floor_clamped 10000000000000000000 = 10
   \<and> histogram_bucket (amd64 add quot) 10000000000000000000 = 0
   \<and> (\<exists>st. GetStatistics (amd64 add quot)
              (AddHosts NewAggregator [score_host ''1'' 10000000000000000000]) = Inr st
         \<and> TotalHosts st = 1
         \<and> Histogram st = [1, 0, 0, 0, 0, 0, 0, 0, 0, 0, 0])"
proof -
  let ?x = "10000000000000000000 :: real"
  let ?pf = "amd64 add quot"
  let ?es = "[score_host ''1'' ?x]"
  have fl: "\<lfloor>?x\<rfloor> = 10000000000000000000"
    by simp
  have 1: "floor_clamped ?x = 10"
    unfolding floor_clamped_def fl by simp
  have tr: "truncation ?x = 10000000000000000000"
    unfolding truncation_def using fl by simp
  have "\<not> representable ?pf (truncation ?x)"
    unfolding tr by (simp add: representable_def amd64_def)
  then have "float_to_int ?pf ?x = - (2 ^ 63)"
    by (simp add: float_to_int_def amd64_def)
  then have 2: "histogram_bucket ?pf ?x = 0"
    by (simp add: histogram_bucket_def Let_def)
  obtain st where
    run: "GetStatistics ?pf (AddHosts NewAggregator ?es) = Inr st"
    and tot: "TotalHosts st = length ?es"
    and len: "length (Histogram st) = 11"
    and hist: "\<forall>b<11. Histogram st ! b =
            length (filter (\<lambda>h. histogram_bucket ?pf (HostEntry.Score h) = int b) ?es)"
    using GetStatistics_histogram_sum [of ?pf ?es] by blast
  have sc: "HostEntry.Score (score_host ''1'' ?x) = ?x"
    by (simp add: score_host_def)
  have nth: "Histogram st ! b = (if b = 0 then 1 else 0)" if "b < 11" for b
    using hist [rule_format, OF that] unfolding list.map filter.simps sc 2 by simp
  have "Histogram st = map (\<lambda>b. if b = 0 then 1 else 0) [0..<11]"
    by (rule nth_equalityI) (simp_all add: len nth del: upt_Suc)
  also have "\<dots> = [1, 0, 0, 0, 0, 0, 0, 0, 0, 0, 0]"
    by (simp add: upt_rec)
  finally have 3: "Histogram st = [1, 0, 0, 0, 0, 0, 0, 0, 0, 0, 0]" .
  show ?thesis
    using 1 2 run tot 3 by simp
qed

section \<open>Parsing package lines\<close>

text \<open>
  Claim C10. \<open>ParsePackageString\<close> splits the line with \<open>strings.Fields\<close>, that is, into
  its white-space separated fields. Three fields are returned as name, version and
  architecture; two as name and version with an empty architecture; one as the name
  alone; and a line of four or more fields is returned whole as the name, with empty
  version and architecture.
\<close>

theorem ParsePackageString_by_field_count:
  "(length (Fields pkg) = 3 \<longrightarrow>
      ParsePackageString Fields pkg = (Fields pkg ! 0, Fields pkg ! 1, Fields pkg ! 2))
   \<and> (length (Fields pkg) = 2 \<longrightarrow>
      ParsePackageString Fields pkg = (Fields pkg ! 0, Fields pkg ! 1, []))
   \<and> (length (Fields pkg) = 1 \<longrightarrow> ParsePackageString Fields pkg = (Fields pkg ! 0, [], []))
   \<and> (4 \<le> length (Fields pkg) \<longrightarrow> ParsePackageString Fields pkg = (pkg, [], []))"
  by (simp add: ParsePackageString_def Let_def)

theorem ParsePackageString_by_field_count_witness:
  "ascii_Fields ''nginx 1.18.0 amd64'' = [''nginx'', ''1.18.0'', ''amd64'']
   \<and> ParsePackageString ascii_Fields ''nginx 1.18.0 amd64'' = (''nginx'', ''1.18.0'', ''amd64'')
   \<and> ascii_Fields ''openssl 1.1.1k'' = [''openssl'', ''1.1.1k'']
   \<and> ParsePackageString ascii_Fields ''openssl 1.1.1k'' = (''openssl'', ''1.1.1k'', [])
   \<and> ascii_Fields ''bash'' = [''bash'']
   \<and> ParsePackageString ascii_Fields ''bash'' = (''bash'', [], [])
   \<and> ascii_Fields ''linux image 5.4 amd64'' = [''linux'', ''image'', ''5.4'', ''amd64'']
   \<and> ParsePackageString ascii_Fields ''linux image 5.4 amd64'' = (''linux image 5.4 amd64'', [], [])"
proof -
  have f3: "ascii_Fields ''nginx 1.18.0 amd64'' = [''nginx'', ''1.18.0'', ''amd64'']"
    by (simp add: ascii_Fields_def ascii_space_def)
  have f2: "ascii_Fields ''openssl 1.1.1k'' = [''openssl'', ''1.1.1k'']"
    by (simp add: ascii_Fields_def ascii_space_def)
  have f1: "ascii_Fields ''bash'' = [''bash'']"
    by (simp add: ascii_Fields_def ascii_space_def)
  have f4: "ascii_Fields ''linux image 5.4 amd64'' = [''linux'', ''image'', ''5.4'', ''amd64'']"
    by (simp add: ascii_Fields_def ascii_space_def)
  note c3 = ParsePackageString_by_field_count [of ascii_Fields "''nginx 1.18.0 amd64''", THEN conjunct1]
  note c2 = ParsePackageString_by_field_count [of ascii_Fields "''openssl 1.1.1k''",
               THEN conjunct2, THEN conjunct1]
  note c1 = ParsePackageString_by_field_count [of ascii_Fields "''bash''",
               THEN conjunct2, THEN conjunct2, THEN conjunct1]
  note c4 = ParsePackageString_by_field_count [of ascii_Fields "''linux image 5.4 amd64''",
               THEN conjunct2, THEN conjunct2, THEN conjunct2]
  have p3: "ParsePackageString ascii_Fields ''nginx 1.18.0 amd64'' = (''nginx'', ''1.18.0'', ''amd64'')"
    using c3 unfolding f3 by simp
  have p2: "ParsePackageString ascii_Fields ''openssl 1.1.1k'' = (''openssl'', ''1.1.1k'', [])"
    using c2 unfolding f2 by simp
  have p1: "ParsePackageString ascii_Fields ''bash'' = (''bash'', [], [])"
    using c1 unfolding f1 by simp
  have p4: "ParsePackageString ascii_Fields ''linux image 5.4 amd64'' = (''linux image 5.4 amd64'', [], [])"
    using c4 unfolding f4 by simp
  show ?thesis
    by (intro conjI) (fact f3 p3 f2 p2 f1 p1 f4 p4)+
qed

section \<open>Host targets\<close>

lemma HasPrefix_iff: "HasPrefix s p = (\<exists>post. s = p @ post)"
  by (induction s p rule: HasPrefix.induct) auto

lemma Contains_iff: "Contains s substr = (\<exists>pre post. s = pre @ substr @ post)"
proof (induction s)
  case Nil
  show ?case by auto
next
  case (Cons c cs)
  show ?case
  proof
    assume "Contains (c # cs) substr"
    then consider "HasPrefix (c # cs) substr" | "Contains cs substr" by auto
    then show "\<exists>pre post. c # cs = pre @ substr @ post"
    proof cases
      case 1
      then obtain post where "c # cs = substr @ post" by (auto simp: HasPrefix_iff)
      then have "c # cs = [] @ substr @ post" by simp
      then show ?thesis by blast
    next
      case 2
      then obtain pre post where "cs = pre @ substr @ post" using Cons.IH by blast
      then have "c # cs = (c # pre) @ substr @ post" by simp
      then show ?thesis by blast
    qed
  next
    assume "\<exists>pre post. c # cs = pre @ substr @ post"
    then obtain pre post where eq: "c # cs = pre @ substr @ post" by blast
    show "Contains (c # cs) substr"
    proof (cases pre)
      case Nil
      then have "HasPrefix (c # cs) substr" using eq by (auto simp: HasPrefix_iff)
      then show ?thesis by simp
    next
      case (Cons d pre')
      then have "cs = pre' @ substr @ post" using eq by simp
      then have "Contains cs substr" using Cons.IH by blast
      then show ?thesis by simp
    qed
  qed
qed

lemma Split_loop_not_Nil: "Split_loop sep piece s \<noteq> []"
  by (induction sep piece s rule: Split_loop.induct) auto

lemma Join_Cons: "xs \<noteq> [] \<Longrightarrow> Join (x # xs) sep = x @ sep @ Join xs sep"
  by (cases xs) auto

lemma Join_Split_loop: "Join (Split_loop sep piece s) [sep] = piece @ s"
  by (induction sep piece s rule: Split_loop.induct) (auto simp: Join_Cons Split_loop_not_Nil)

lemma Split_loop_no_sep:
  "sep \<notin> set piece \<Longrightarrow> \<forall>l\<in>set (Split_loop sep piece s). sep \<notin> set l"
  by (induction sep piece s rule: Split_loop.induct) auto

lemma Join_Split: "Join (Split s sep) [sep] = s"
  by (simp add: Split_def Join_Split_loop)

lemma Split_no_sep: "\<forall>l\<in>set (Split s sep). sep \<notin> set l"
  unfolding Split_def by (rule Split_loop_no_sep) simp

lemma label_loop_iff: "label_loop labels = list_all (\<lambda>l. 1 \<le> length l \<and> length l \<le> 63) labels"
proof (induction labels)
  case Nil
  show ?case by simp
next
  case (Cons l labels)
  have "(1 \<le> length l) = (length l \<noteq> 0)" by (cases l) simp_all
  then show ?case using Cons.IH by (simp add: not_less)
qed

lemma fqdnRe_iff:
  assumes "length s \<le> 253"
  shows "fqdnRe s =
           (s \<noteq> [] \<and> isAlnum (hd s) \<and> isAlnum (last s)
            \<and> list_all (\<lambda>c. isAlnum c \<or> c = CHR ''.'' \<or> c = CHR ''-'') s)"
proof (cases s)
  case Nil
  then show ?thesis by (simp add: fqdnRe_def)
next
  case (Cons c cs)
  show ?thesis
  proof (cases "cs = []")
    case True
    then show ?thesis using Cons by (auto simp: fqdnRe_def)
  next
    case False
    then have cs: "cs = butlast cs @ [last cs]" by simp
    have len: "length (butlast cs) \<le> 251"
      using assms Cons by simp
    have "list_all (\<lambda>c. isAlnum c \<or> c = CHR ''.'' \<or> c = CHR ''-'') cs
            = (list_all (\<lambda>c. isAlnum c \<or> c = CHR ''.'' \<or> c = CHR ''-'') (butlast cs)
               \<and> (isAlnum (last cs) \<or> last cs = CHR ''.'' \<or> last cs = CHR ''-''))"
      by (subst cs) simp
    then show ?thesis
      using Cons False len by (auto simp: fqdnRe_def)
  qed
qed

lemma isValidFQDN_iff:
  "isValidFQDN s =
     (length s \<le> 253 \<and> s \<noteq> [] \<and> isAlnum (hd s) \<and> isAlnum (last s)
      \<and> list_all (\<lambda>c. isAlnum c \<or> c = CHR ''.'' \<or> c = CHR ''-'') s
      \<and> list_all (\<lambda>l. 1 \<le> length l \<and> length l \<le> 63) (Split s CHR ''.''))"
proof (cases "length s \<le> 253")
  case True
  then show ?thesis
    using fqdnRe_iff [OF True] by (auto simp: isValidFQDN_def label_loop_iff)
next
  case False
  then show ?thesis by (simp add: isValidFQDN_def)
qed


lemma ValidateHostTarget_Inr:
  "(ValidateHostTarget ParseIP t = Inr ()) = (t \<noteq> [] \<and> (ParseIP t \<or> isValidFQDN t))"
  by (simp add: ValidateHostTarget_def)

lemma ValidateHostTarget_rejects_no_spawn:
  assumes "ValidateHostTarget ParseIP t \<noteq> Inr ()"
  shows "\<exists>err. ValidateHostTarget ParseIP t = Inl err
           \<and> ExecuteViaAgent ParseIP Run GetPath t port command = (Inl (InvalidHost err), [])
           \<and> ExecuteViaSSH ParseIP Run t user command = (Inl (InvalidHost err), [])"
proof (cases "ValidateHostTarget ParseIP t")
  case (Inl err)
  then show ?thesis
    by (simp add: ExecuteViaAgent_def ExecuteViaSSH_def)
next
  case (Inr u)
  then show ?thesis using assms by simp
qed

text \<open>
  Claim C7, as the code has it. A host target is accepted exactly when it is not empty
  and either parses as an IP address or is a host name of at most 253 bytes made of
  ASCII letters, digits, dots and hyphens, whose first and last byte are a letter or a
  digit and whose dot-separated labels each have between 1 and 63 bytes. Hyphens are
  checked at the two ends of the whole name, not at the ends of each label. A rejected
  target makes \<open>ExecuteViaAgent\<close> and \<open>ExecuteViaSSH\<close> return the validation error with
  no subprocess spawned.
\<close>

theorem ValidateHostTarget_accepts_iff:
  "(ValidateHostTarget ParseIP t = Inr ()) =
     (t \<noteq> [] \<and>
      (ParseIP t \<or>
       (length t \<le> 253 \<and> isAlnum (hd t) \<and> isAlnum (last t)
        \<and> list_all (\<lambda>c. isAlnum c \<or> c = CHR ''.'' \<or> c = CHR ''-'') t
        \<and> list_all (\<lambda>l. 1 \<le> length l \<and> length l \<le> 63) (Split t CHR ''.''))))
   \<and> (ValidateHostTarget ParseIP t \<noteq> Inr () \<longrightarrow>
        (\<exists>err. ValidateHostTarget ParseIP t = Inl err
           \<and> ExecuteViaAgent ParseIP Run GetPath t port command = (Inl (InvalidHost err), [])
           \<and> ExecuteViaSSH ParseIP Run t user command = (Inl (InvalidHost err), [])))"
proof -
  have "(ValidateHostTarget ParseIP t = Inr ()) =
     (t \<noteq> [] \<and>
      (ParseIP t \<or>
       (length t \<le> 253 \<and> isAlnum (hd t) \<and> isAlnum (last t)
        \<and> list_all (\<lambda>c. isAlnum c \<or> c = CHR ''.'' \<or> c = CHR ''-'') t
        \<and> list_all (\<lambda>l. 1 \<le> length l \<and> length l \<le> 63) (Split t CHR ''.''))))"
    unfolding ValidateHostTarget_Inr isValidFQDN_iff by blast
  then show ?thesis
    using ValidateHostTarget_rejects_no_spawn [of ParseIP t Run GetPath port command user]
    by blast
qed

text \<open>
  The claim as stated, with the hyphen rule on every label and no rule on the bytes of
  the name, fails in both directions: \<open>a-.b\<close> is accepted although its first label ends
  with a hyphen, and \<open>a_b\<close> is rejected although it meets the three stated conditions.
\<close>

theorem ValidateHostTarget_label_hyphen_counterexample:
  "Split ''a-.b'' CHR ''.'' = [''a-'', ''b'']
   \<and> last ''a-'' = CHR ''-''
   \<and> isValidFQDN ''a-.b''
   \<and> (\<forall>ParseIP. ValidateHostTarget ParseIP ''a-.b'' = Inr ())
   \<and> length ''a_b'' \<le> 253
   \<and> Split ''a_b'' CHR ''.'' = [''a_b'']
   \<and> CHR ''-'' \<notin> set ''a_b''
   \<and> \<not> isValidFQDN ''a_b''
   \<and> ValidateHostTarget (\<lambda>target. False) ''a_b'' = Inl (InvalidHostTarget ''a_b'')"
proof -
  have 1: "Split ''a-.b'' CHR ''.'' = [''a-'', ''b'']"
    by (simp add: Split_def)
  have 2: "isValidFQDN ''a-.b''"
    by (simp add: isValidFQDN_def fqdnRe_def isAlnum_def Split_def)
  have 3: "\<forall>ParseIP. ValidateHostTarget ParseIP ''a-.b'' = Inr ()"
    using 2 by (simp add: ValidateHostTarget_def)
  have 4: "Split ''a_b'' CHR ''.'' = [''a_b'']"
    by (simp add: Split_def)
  have 5: "\<not> isValidFQDN ''a_b''"
    by (simp add: isValidFQDN_def fqdnRe_def isAlnum_def)
  have 6: "ValidateHostTarget (\<lambda>target. False) ''a_b'' = Inl (InvalidHostTarget ''a_b'')"
    using 5 by (simp add: ValidateHostTarget_def)
  show ?thesis
    using 1 2 3 4 5 6 by simp
qed

theorem ValidateHostTarget_accepts_iff_witness:
  "ValidateHostTarget (\<lambda>target. False) ''host;rm -rf /'' \<noteq> Inr ()
   \<and> ExecuteViaAgent (\<lambda>target. False) (\<lambda>cmd. ([], [], None :: unit option)) ''zabbix_get''
        ''host;rm -rf /'' [] ''apt-get update''
      = (Inl (InvalidHost (InvalidHostTarget ''host;rm -rf /'')), [])
   \<and> ExecuteViaSSH (\<lambda>target. False) (\<lambda>cmd. ([], [], None :: unit option))
        ''host;rm -rf /'' ''root'' ''apt-get update''
      = (Inl (InvalidHost (InvalidHostTarget ''host;rm -rf /'')), [])
   \<and> ValidateHostTarget (\<lambda>target. False) ''db-01.prod.example.com'' = Inr ()"
proof -
  let ?no = "\<lambda>target::string. False"
  let ?run = "\<lambda>cmd::Cmd. ([]::string, []::string, None :: unit option)"
  note bad = ValidateHostTarget_accepts_iff
               [of ?no "''host;rm -rf /''" ?run "''zabbix_get''" "[]" "''apt-get update''" "''root''"]
  note good = ValidateHostTarget_accepts_iff
               [of ?no "''db-01.prod.example.com''" ?run "''zabbix_get''" "[]" "''apt-get update''" "''root''",
                THEN conjunct1]
  have v: "ValidateHostTarget ?no ''host;rm -rf /'' = Inl (InvalidHostTarget ''host;rm -rf /'')"
    by (simp add: ValidateHostTarget_def isValidFQDN_def fqdnRe_def isAlnum_def)
  then have r: "ValidateHostTarget ?no ''host;rm -rf /'' \<noteq> Inr ()"
    by simp
  from bad r v have a:
    "ExecuteViaAgent ?no ?run ''zabbix_get'' ''host;rm -rf /'' [] ''apt-get update''
       = (Inl (InvalidHost (InvalidHostTarget ''host;rm -rf /'')), [])
     \<and> ExecuteViaSSH ?no ?run ''host;rm -rf /'' ''root'' ''apt-get update''
       = (Inl (InvalidHost (InvalidHostTarget ''host;rm -rf /'')), [])"
    by auto
  have g: "ValidateHostTarget ?no ''db-01.prod.example.com'' = Inr ()"
    unfolding good by (simp add: isAlnum_def Split_def)
  show ?thesis
    using r a g by blast
qed


section \<open>Fix commands\<close>

lemma SanitizePackages_Inr:
  "(SanitizePackages pkgs = Inr ()) =
     list_all (\<lambda>p. p \<noteq> [] \<and> length p \<le> 256 \<and> packageNameRe p) pkgs"
  by (induction pkgs) (auto simp: ValidatePackageName_def split: sum.splits)

lemma packageNameRe_nonempty: "packageNameRe p \<Longrightarrow> p \<noteq> []"
  by (auto simp: packageNameRe_def)

lemma kept_packages:
  "(case SanitizePackages pkgs of Inl err \<Rightarrow> [] | Inr u \<Rightarrow> pkgs)
     = (if list_all (\<lambda>p. packageNameRe p \<and> length p \<le> 256) pkgs then pkgs else [])"
proof -
  have eq: "list_all (\<lambda>p. p \<noteq> [] \<and> length p \<le> 256 \<and> packageNameRe p) pkgs
              = list_all (\<lambda>p. packageNameRe p \<and> length p \<le> 256) pkgs"
    by (auto simp: list_all_iff dest: packageNameRe_nonempty)
  show ?thesis
    using SanitizePackages_Inr [of pkgs] unfolding eq
    by (cases "SanitizePackages pkgs") auto
qed

text \<open>
  Claim C6, as the code has it. The package list is kept when every name matches the
  regular expression and has at most 256 bytes, and is discarded (replaced by the empty
  list) otherwise. The family is the OS name lower-cased by \<open>strings.ToLower\<close>. A family
  that contains \<open>ubuntu\<close> or \<open>debian\<close> gets the apt-get command, otherwise one that
  contains \<open>centos\<close>, \<open>red hat\<close>, \<open>redhat\<close>, \<open>rhel\<close> or \<open>amazon\<close> gets the yum command, and
  any other family the apt-get command; each command lists the kept names in single
  quotes, or is the full-system update when no name is kept. \<open>Contains\<close> is the substring
  test (lemma \<open>Contains_iff\<close>).
\<close>

theorem GenerateFixCommand_by_family:
  "GenerateFixCommand ToLower os pkgs =
     (let kept = (if list_all (\<lambda>p. packageNameRe p \<and> length p \<le> 256) pkgs then pkgs else []);
          quoted = Join (map (\<lambda>p. [CHR 0x27] @ p @ [CHR 0x27]) kept) '' '';
          apt = (if kept = [] then ''apt-get update && apt-get upgrade -y''
                 else ''apt-get update && apt-get install -y --only-upgrade '' @ quoted);
          yum = (if kept = [] then ''yum update -y'' else ''yum update -y '' @ quoted);
          family = ToLower os
      in if Contains family ''ubuntu'' \<or> Contains family ''debian'' then apt
         else if Contains family ''centos'' \<or> Contains family ''red hat''
                 \<or> Contains family ''redhat'' \<or> Contains family ''rhel''
                 \<or> Contains family ''amazon'' then yum
         else apt)"
  unfolding GenerateFixCommand_def kept_packages
  by (simp add: Let_def generateDebianFixCommand_def generateRHELFixCommand_def
        generateAmazonFixCommand_def quotePackages_def)

text \<open>
  The claim as stated, with the regular expression as the only validation, fails on a
  name of 257 letters: it matches the expression, yet the list is discarded, and for every
  family the command is a full-system update that does not list the name.
\<close>

theorem GenerateFixCommand_length_counterexample:
  "list_all packageNameRe [replicate 257 CHR ''a'']
   \<and> [replicate 257 CHR ''a''] \<noteq> []
   \<and> SanitizePackages [replicate 257 CHR ''a''] = Inl (PackageNameTooLong 257)
   \<and> (\<forall>ToLower os.
         GenerateFixCommand ToLower os [replicate 257 CHR ''a'']
           \<in> {''apt-get update && apt-get upgrade -y'', ''yum update -y''})"
proof -
  have r: "replicate 257 CHR ''a'' = CHR ''a'' # replicate 256 CHR ''a''"
    by (simp add: replicate_Suc [symmetric] del: replicate_Suc)
  have 1: "list_all packageNameRe [replicate 257 CHR ''a'']"
    by (simp add: packageNameRe_def r list_all_iff isAlnum_def)
  have 2: "SanitizePackages [replicate 257 CHR ''a''] = Inl (PackageNameTooLong 257)"
    by (simp add: ValidatePackageName_def)
  have 3: "GenerateFixCommand ToLower os [replicate 257 CHR ''a'']
             \<in> {''apt-get update && apt-get upgrade -y'', ''yum update -y''}" for ToLower os
    unfolding GenerateFixCommand_def 2
    by (simp add: Let_def generateDebianFixCommand_def generateRHELFixCommand_def
          generateAmazonFixCommand_def)
  show ?thesis
    using 1 2 3 by simp
qed

theorem GenerateFixCommand_by_family_witness:
  "GenerateFixCommand ascii_ToLower ''Ubuntu 20.04'' [''nginx'', ''openssl'']
     = ''apt-get update && apt-get install -y --only-upgrade ''
       @ [CHR 0x27] @ ''nginx'' @ [CHR 0x27] @ '' '' @ [CHR 0x27] @ ''openssl'' @ [CHR 0x27]
   \<and> GenerateFixCommand ascii_ToLower ''CentOS Linux 7'' [''httpd'']
     = ''yum update -y '' @ [CHR 0x27] @ ''httpd'' @ [CHR 0x27]
   \<and> GenerateFixCommand ascii_ToLower ''Amazon Linux 2'' [] = ''yum update -y''
   \<and> GenerateFixCommand ascii_ToLower ''Arch Linux'' [''nginx'', ''$(bad)'']
     = ''apt-get update && apt-get upgrade -y''"
proof -
  have 1: "GenerateFixCommand ascii_ToLower ''Ubuntu 20.04'' [''nginx'', ''openssl'']
     = ''apt-get update && apt-get install -y --only-upgrade ''
       @ [CHR 0x27] @ ''nginx'' @ [CHR 0x27] @ '' '' @ [CHR 0x27] @ ''openssl'' @ [CHR 0x27]"
    unfolding GenerateFixCommand_by_family [of ascii_ToLower "''Ubuntu 20.04''" "[''nginx'', ''openssl'']"]
    by (simp add: Let_def ascii_ToLower_def ascii_lower_def packageNameRe_def isAlnum_def)
  have 2: "GenerateFixCommand ascii_ToLower ''CentOS Linux 7'' [''httpd'']
     = ''yum update -y '' @ [CHR 0x27] @ ''httpd'' @ [CHR 0x27]"
    unfolding GenerateFixCommand_by_family [of ascii_ToLower "''CentOS Linux 7''" "[''httpd'']"]
    by (simp add: Let_def ascii_ToLower_def ascii_lower_def packageNameRe_def isAlnum_def)
  have 3: "GenerateFixCommand ascii_ToLower ''Amazon Linux 2'' [] = ''yum update -y''"
    unfolding GenerateFixCommand_by_family [of ascii_ToLower "''Amazon Linux 2''" "[]"]
    by (simp add: Let_def ascii_ToLower_def ascii_lower_def)
  have 4: "GenerateFixCommand ascii_ToLower ''Arch Linux'' [''nginx'', ''$(bad)'']
     = ''apt-get update && apt-get upgrade -y''"
    unfolding GenerateFixCommand_by_family [of ascii_ToLower "''Arch Linux''" "[''nginx'', ''$(bad)'']"]
    by (simp add: Let_def ascii_ToLower_def ascii_lower_def packageNameRe_def isAlnum_def)
  show ?thesis
    by (intro conjI) (fact 1 2 3 4)+
qed

section \<open>Host eligibility\<close>

lemma validateHostData_loop_Nil_iff:
  "(validateHostData_loop pkgs = []) = (\<forall>pkg\<in>set pkgs. \<not> Contains pkg ''report.py'')"
  by (induction pkgs) auto

lemma validateHostData_Nil_iff:
  "(validateHostData osVersion pkgs = []) =
     (osVersion \<noteq> ''0.0'' \<and> 5 < length pkgs \<and> (\<forall>pkg\<in>set pkgs. \<not> Contains pkg ''report.py''))"
  by (auto simp: validateHostData_def validateHostData_loop_Nil_iff)

text \<open>
  Claim C5. The OS identity and version of a host are parsed from the first non-empty OS
  item, its package list from the first non-empty package item. When the monitor answers
  the OS query, a host without OS identity yields no entry; and when it also answers the
  package query, \<open>fetchHostData\<close> returns an entry exactly when the OS identity is not
  empty, the extracted OS version is not \<open>0.0\<close>, the parsed package list has more than 5
  lines and no line contains \<open>report.py\<close> as a substring. In every other case it returns
  no entry and no error. This holds whatever \<open>strings.TrimSpace\<close>, \<open>strings.Fields\<close> and
  \<open>strings.ToLower\<close> compute.
\<close>

theorem fetchHostData_eligible_iff:
  "GetHostItems (zabbix_Host.HostID host) ''system.sw.os'' = Inr osItems \<longrightarrow>
     (fst (osItems_loop TrimSpace Fields ToLower osItems) = [] \<longrightarrow>
        fetchHostData TrimSpace Fields ToLower GetHostItems host = Inr None)
     \<and> (\<forall>pkgItems.
           GetHostItems (zabbix_Host.HostID host) ''system.sw.packages'' = Inr pkgItems \<longrightarrow>
           fetchHostData TrimSpace Fields ToLower GetHostItems host =
             (if fst (osItems_loop TrimSpace Fields ToLower osItems) \<noteq> []
                 \<and> ExtractOSVersion Fields (snd (osItems_loop TrimSpace Fields ToLower osItems)) \<noteq> ''0.0''
                 \<and> 5 < length (pkgItems_loop TrimSpace pkgItems)
                 \<and> (\<forall>pkg\<in>set (pkgItems_loop TrimSpace pkgItems).
                       \<not> (\<exists>pre post. pkg = pre @ ''report.py'' @ post))
              then Inr (Some \<lparr>HostData.Host = host,
                               OSName = NormalizeOSName ToLower
                                          (fst (osItems_loop TrimSpace Fields ToLower osItems)),
                               OSVersion = ExtractOSVersion Fields
                                          (snd (osItems_loop TrimSpace Fields ToLower osItems)),
                               Packages = pkgItems_loop TrimSpace pkgItems\<rparr>)
              else Inr None))"
proof (intro impI conjI allI)
  let ?os = "osItems_loop TrimSpace Fields ToLower osItems"
  assume os: "GetHostItems (zabbix_Host.HostID host) ''system.sw.os'' = Inr osItems"
  {
    assume "fst ?os = []"
    then show "fetchHostData TrimSpace Fields ToLower GetHostItems host = Inr None"
      using os by (simp add: fetchHostData_def split_beta)
  }
  {
    fix pkgItems
    assume pk: "GetHostItems (zabbix_Host.HostID host) ''system.sw.packages'' = Inr pkgItems"
    let ?v = "ExtractOSVersion Fields (snd ?os)"
    let ?ps = "pkgItems_loop TrimSpace pkgItems"
    have valid: "(validateHostData ?v ?ps = []) =
                   (?v \<noteq> ''0.0'' \<and> 5 < length ?ps
                    \<and> (\<forall>pkg\<in>set ?ps. \<not> (\<exists>pre post. pkg = pre @ ''report.py'' @ post)))"
      unfolding validateHostData_Nil_iff Contains_iff ..
    have short: "validateHostData ?v [] \<noteq> []"
      by (simp add: validateHostData_def)
    show "fetchHostData TrimSpace Fields ToLower GetHostItems host =
             (if fst ?os \<noteq> []
                 \<and> ?v \<noteq> ''0.0''
                 \<and> 5 < length ?ps
                 \<and> (\<forall>pkg\<in>set ?ps. \<not> (\<exists>pre post. pkg = pre @ ''report.py'' @ post))
              then Inr (Some \<lparr>HostData.Host = host,
                               OSName = NormalizeOSName ToLower (fst ?os),
                               OSVersion = ?v,
                               Packages = ?ps\<rparr>)
              else Inr None)"
      unfolding valid [symmetric]
      using os pk short
      by (cases "?ps = []") (simp_all add: fetchHostData_def split_beta Let_def)
  }
qed

lemma example_parse:
  "parsePackageList ascii_TrimSpace (Join example_packages [CHR 0x0A]) = example_packages"
  by (simp add: parsePackageList_def Split_def example_packages_def ascii_TrimSpace_def ascii_space_def)

lemma example_parse5:
  "parsePackageList ascii_TrimSpace (Join (butlast example_packages) [CHR 0x0A]) = butlast example_packages"
  by (simp add: parsePackageList_def Split_def example_packages_def ascii_TrimSpace_def ascii_space_def)

lemma example_os:
  "parseOSInfo ascii_TrimSpace ascii_Fields ascii_ToLower ''Ubuntu 20.04.3 LTS'' = (''ubuntu'', ''20.04.3'')"
  by (simp add: parseOSInfo_def ascii_TrimSpace_def ascii_Fields_def ascii_space_def isDigit_def
        ascii_ToLower_def ascii_lower_def)

lemma example_clean: "\<forall>pkg\<in>set example_packages. \<not> Contains pkg ''report.py''"
  by (simp add: example_packages_def)

theorem fetchHostData_eligible_iff_witness:
  "fetchHostData ascii_TrimSpace ascii_Fields ascii_ToLower
       (example_monitor ''Ubuntu 20.04.3 LTS'' (Join example_packages [CHR 0x0A]))
       example_zabbix_host
     = Inr (Some \<lparr>HostData.Host = example_zabbix_host, OSName = ''ubuntu'', OSVersion = ''20.04.3'',
                   Packages = example_packages\<rparr>)
   \<and> fetchHostData ascii_TrimSpace ascii_Fields ascii_ToLower
       (example_monitor ''Ubuntu 20.04.3 LTS'' (Join (butlast example_packages) [CHR 0x0A]))
       example_zabbix_host
     = Inr None
   \<and> fetchHostData ascii_TrimSpace ascii_Fields ascii_ToLower
       (example_monitor [] (Join example_packages [CHR 0x0A])) example_zabbix_host
     = Inr None"
proof -
  let ?six = "Join example_packages [CHR 0x0A]"
  let ?five = "Join (butlast example_packages) [CHR 0x0A]"
  let ?os = "''Ubuntu 20.04.3 LTS''"
  let ?osl = "osItems_loop ascii_TrimSpace ascii_Fields ascii_ToLower"
  let ?pkl = "pkgItems_loop ascii_TrimSpace"
  have os: "example_monitor os pl (zabbix_Host.HostID example_zabbix_host) ''system.sw.os''
              = Inr [example_item ''system.sw.os'' os]" for os pl
    by (simp add: example_monitor_def)
  have pk: "example_monitor os pl (zabbix_Host.HostID example_zabbix_host) ''system.sw.packages''
              = Inr [example_item ''system.sw.packages'' pl]" for os pl
    by (simp add: example_monitor_def)
  have osl: "?osl [example_item ''system.sw.os'' ?os] = (''ubuntu'', ''20.04.3'')"
    by (simp add: example_item_def example_os)
  have osl0: "fst (?osl [example_item ''system.sw.os'' []]) = []"
    by (simp add: example_item_def)
  have pl6: "?pkl [example_item ''system.sw.packages'' ?six] = example_packages"
    using example_parse by (simp add: example_item_def example_packages_def)
  have pl5: "?pkl [example_item ''system.sw.packages'' ?five] = butlast example_packages"
    using example_parse5 by (simp add: example_item_def example_packages_def)
  have ver: "ExtractOSVersion ascii_Fields ''20.04.3'' = ''20.04.3''"
    by (simp add: ExtractOSVersion_def ascii_Fields_def ascii_space_def)
  have nrm: "NormalizeOSName ascii_ToLower ''ubuntu'' = ''ubuntu''"
    by (simp add: NormalizeOSName_def ascii_ToLower_def ascii_lower_def)
  have len6: "5 < length example_packages" and len5: "\<not> 5 < length (butlast example_packages)"
    by (simp_all add: example_packages_def)
  have clean: "\<forall>pkg\<in>set example_packages. \<not> (\<exists>pre post. pkg = pre @ ''report.py'' @ post)"
    using example_clean unfolding Contains_iff .
  note T6 = fetchHostData_eligible_iff
              [of "example_monitor ?os ?six" example_zabbix_host "[example_item ''system.sw.os'' ?os]"
                  ascii_TrimSpace ascii_Fields ascii_ToLower,
               THEN mp, OF os [of ?os ?six], THEN conjunct2, THEN spec,
               of "[example_item ''system.sw.packages'' ?six]", THEN mp, OF pk [of ?os ?six]]
  note T5 = fetchHostData_eligible_iff
              [of "example_monitor ?os ?five" example_zabbix_host "[example_item ''system.sw.os'' ?os]"
                  ascii_TrimSpace ascii_Fields ascii_ToLower,
               THEN mp, OF os [of ?os ?five], THEN conjunct2, THEN spec,
               of "[example_item ''system.sw.packages'' ?five]", THEN mp, OF pk [of ?os ?five]]
  note T0 = fetchHostData_eligible_iff
              [of "example_monitor [] ?six" example_zabbix_host "[example_item ''system.sw.os'' []]"
                  ascii_TrimSpace ascii_Fields ascii_ToLower,
               THEN mp, OF os [of "[]" ?six], THEN conjunct1, THEN mp, OF osl0]
  have 1: "fetchHostData ascii_TrimSpace ascii_Fields ascii_ToLower
             (example_monitor ?os ?six) example_zabbix_host
     = Inr (Some \<lparr>HostData.Host = example_zabbix_host, OSName = ''ubuntu'', OSVersion = ''20.04.3'',
                   Packages = example_packages\<rparr>)"
    using T6 len6 clean
    unfolding osl pl6 fst_conv snd_conv ver nrm
    by simp
  have 2: "fetchHostData ascii_TrimSpace ascii_Fields ascii_ToLower
             (example_monitor ?os ?five) example_zabbix_host = Inr None"
    using T5 len5
    unfolding osl pl5 fst_conv snd_conv ver nrm
    by simp
  have 3: "fetchHostData ascii_TrimSpace ascii_Fields ascii_ToLower
             (example_monitor [] ?six) example_zabbix_host = Inr None"
    using T0 .
  show ?thesis
    by (intro conjI) (fact 1 2 3)+
qed

end
